theory Spec2Isabelle
  imports Complex_Main "HOL-Library.Word"
begin

unbundle bit_operations_syntax

section \<open>Bytes, tokens and C numbers\<close>

text \<open>
  The input buffer \<open>inputBuf\<close> is a list of bytes. A token (\<open>tPToken\<close>) is a view into the
  buffer: \<open>start\<close> is a pointer into it (\<open>None\<close> is \<open>NULL\<close>, \<open>Some i\<close> is
  \<open>inputBuf + i\<close>) and \<open>len\<close> is the field \<open>length\<close>. \<open>size_t\<close> values that are computed
  from digits wrap around and are 64-bit words; positions and line counters are bounded by
  the size of the buffer and are natural numbers.
\<close>

type_synonym size_t = "64 word"
type_synonym uint = "32 word"

record tPToken =
  start :: "nat option"
  len :: nat

definition null_token :: tPToken where
  "null_token = \<lparr>start = None, len = 0\<rparr>"

definition token_text :: "string \<Rightarrow> tPToken \<Rightarrow> string" where
  "token_text buf t = (case start t of None \<Rightarrow> [] | Some i \<Rightarrow> take (len t) (drop i buf))"

definition whole :: "string \<Rightarrow> tPToken" where
  "whole s = \<lparr>start = Some 0, len = length s\<rparr>"

definition isdigit :: "char \<Rightarrow> bool" where
  "isdigit ch = (ch \<in> set ''0123456789'')"

definition isspace :: "char \<Rightarrow> bool" where
  "isspace ch = (ch \<in> set [CHR '' '', CHR 0x09, CHR 0x0A, CHR 0x0B, CHR 0x0C, CHR 0x0D])"

definition digit_val :: "char \<Rightarrow> nat" where
  "digit_val ch = of_char ch - 48"

text \<open>
  A C \<open>float\<close> is \<open>NaN\<close>, an infinity or a finite number of the IEEE 754 format binary32
  (the compiler evaluates \<open>float\<close> expressions in that format and rounds to nearest,
  ties to even). The sign of a zero is not kept. Comparisons with \<open>NaN\<close> are false, as
  in C, and \<open>IS_SET(num)\<close> is \<open>(num) == (num)\<close>.
\<close>

datatype cfloat = NaN | NegInf | Fin real | PosInf

text \<open>
  Rounding a real number to binary32. \<open>exponent a\<close> is the binary exponent of \<open>a > 0\<close>,
  at least \<open>-126\<close> (below that the numbers are subnormal) and at most 128; the
  representable numbers near \<open>a\<close> are the multiples of \<open>quantum (exponent a)\<close>; a result
  of \<open>2 ^ 128\<close> or more is an infinity.
\<close>

fun exp_hi :: "nat \<Rightarrow> real \<Rightarrow> nat" where
  "exp_hi 0 a = 0"
| "exp_hi (Suc n) a = (if a < 2 then 0 else Suc (exp_hi n (a / 2)))"

fun exp_lo :: "nat \<Rightarrow> real \<Rightarrow> nat" where
  "exp_lo 0 a = 0"
| "exp_lo (Suc n) a = (if 1 \<le> a then 0 else Suc (exp_lo n (a * 2)))"

definition exponent :: "real \<Rightarrow> int" where
  "exponent a = (if 1 \<le> a then int (exp_hi 128 a) else - int (exp_lo 126 a))"

definition quantum :: "int \<Rightarrow> real" where
  "quantum e = (if 23 \<le> e then 2 ^ nat (e - 23) else 1 / 2 ^ nat (23 - e))"

definition round_even :: "real \<Rightarrow> int" where
  "round_even m =
     (if m - of_int \<lfloor>m\<rfloor> < 1 / 2 then \<lfloor>m\<rfloor>
      else if 1 / 2 < m - of_int \<lfloor>m\<rfloor> then \<lfloor>m\<rfloor> + 1
      else if even \<lfloor>m\<rfloor> then \<lfloor>m\<rfloor> else \<lfloor>m\<rfloor> + 1)"

definition round_to :: "real \<Rightarrow> real \<Rightarrow> real" where
  "round_to q a = of_int (round_even (a / q)) * q"

definition mag32 :: "real \<Rightarrow> real" where
  "mag32 a = round_to (quantum (exponent a)) a"

definition f32 :: "real \<Rightarrow> cfloat" where
  "f32 x =
     (if x = 0 then Fin 0
      else if 2 ^ 128 \<le> mag32 \<bar>x\<bar> then (if 0 < x then PosInf else NegInf)
      else Fin (sgn x * mag32 \<bar>x\<bar>))"

fun fl_less :: "cfloat \<Rightarrow> cfloat \<Rightarrow> bool" where
  "fl_less NaN b = False"
| "fl_less a NaN = False"
| "fl_less NegInf NegInf = False"
| "fl_less NegInf b = True"
| "fl_less (Fin a) (Fin b) = (a < b)"
| "fl_less (Fin a) PosInf = True"
| "fl_less (Fin a) NegInf = False"
| "fl_less PosInf b = False"

fun fl_le :: "cfloat \<Rightarrow> cfloat \<Rightarrow> bool" where
  "fl_le NaN b = False"
| "fl_le a NaN = False"
| "fl_le NegInf b = True"
| "fl_le (Fin a) (Fin b) = (a \<le> b)"
| "fl_le (Fin a) PosInf = True"
| "fl_le (Fin a) NegInf = False"
| "fl_le PosInf PosInf = True"
| "fl_le PosInf b = False"

text \<open>The arithmetic of \<open>float\<close>: the exact result, rounded.\<close>

fun fl_add :: "cfloat \<Rightarrow> cfloat \<Rightarrow> cfloat" where
  "fl_add NaN b = NaN"
| "fl_add a NaN = NaN"
| "fl_add (Fin a) (Fin b) = f32 (a + b)"
| "fl_add NegInf PosInf = NaN"
| "fl_add PosInf NegInf = NaN"
| "fl_add NegInf b = NegInf"
| "fl_add PosInf b = PosInf"
| "fl_add (Fin a) b = b"

fun fl_neg :: "cfloat \<Rightarrow> cfloat" where
  "fl_neg NaN = NaN"
| "fl_neg NegInf = PosInf"
| "fl_neg (Fin a) = Fin (- a)"
| "fl_neg PosInf = NegInf"

definition fl_sub :: "cfloat \<Rightarrow> cfloat \<Rightarrow> cfloat" where
  "fl_sub a b = fl_add a (fl_neg b)"

text \<open>An infinity with the sign of \<open>a\<close>; \<open>NaN\<close> when \<open>a\<close> is zero.\<close>

definition signed_inf :: "real \<Rightarrow> cfloat" where
  "signed_inf a = (if a = 0 then NaN else if 0 < a then PosInf else NegInf)"

fun fl_mul :: "cfloat \<Rightarrow> cfloat \<Rightarrow> cfloat" where
  "fl_mul NaN b = NaN"
| "fl_mul a NaN = NaN"
| "fl_mul (Fin a) (Fin b) = f32 (a * b)"
| "fl_mul (Fin a) PosInf = signed_inf a"
| "fl_mul (Fin a) NegInf = signed_inf (- a)"
| "fl_mul PosInf (Fin b) = signed_inf b"
| "fl_mul NegInf (Fin b) = signed_inf (- b)"
| "fl_mul PosInf PosInf = PosInf"
| "fl_mul PosInf NegInf = NegInf"
| "fl_mul NegInf PosInf = NegInf"
| "fl_mul NegInf NegInf = PosInf"

text \<open>Division; a zero divisor counts as positive.\<close>

fun fl_div :: "cfloat \<Rightarrow> cfloat \<Rightarrow> cfloat" where
  "fl_div NaN b = NaN"
| "fl_div a NaN = NaN"
| "fl_div (Fin a) (Fin b) = (if b = 0 then signed_inf a else f32 (a / b))"
| "fl_div (Fin a) b = Fin 0"
| "fl_div PosInf (Fin b) = (if 0 \<le> b then PosInf else NegInf)"
| "fl_div NegInf (Fin b) = (if 0 \<le> b then NegInf else PosInf)"
| "fl_div a b = NaN"

text \<open>The conversion \<open>(float)\<close> of a \<open>size_t\<close>.\<close>

definition fl_of_size :: "size_t \<Rightarrow> cfloat" where
  "fl_of_size v = f32 (real (unat v))"

definition IS_SET :: "cfloat \<Rightarrow> bool" where
  "IS_SET num = (num \<noteq> NaN)"

section \<open>Micro-parsers\<close>

text \<open>
  Modelled from the spec: \<open>p_cmpToken\<close> is declared outside \<open>sm2pspp.c\<close>; the source only
  says that it returns what \<open>strcmp\<close> returns and tests its result against 0. It is 0
  exactly when the bytes of the token are the bytes of the string.
\<close>

definition p_cmpToken :: "string \<Rightarrow> tPToken \<Rightarrow> string \<Rightarrow> int" where
  "p_cmpToken buf lhs rhs =
     (if start lhs \<noteq> None \<and> len lhs = length rhs \<and> token_text buf lhs = rhs then 0 else 1)"

definition p_cmpTokenStart :: "string \<Rightarrow> tPToken \<Rightarrow> string \<Rightarrow> int" where
  "p_cmpTokenStart buf lhs rhs =
     (let rhsLen = length rhs;
          aToken = \<lparr>start = start lhs, len = (if len lhs > rhsLen then rhsLen else len lhs)\<rparr>
      in p_cmpToken buf aToken rhs)"

text \<open>The loop of \<open>p_dtms\<close> over the bytes of the token, with \<open>res\<close> and \<open>val\<close>.\<close>

fun dtms_loop :: "string \<Rightarrow> size_t \<Rightarrow> size_t \<Rightarrow> size_t" where
  "dtms_loop [] res val = res"
| "dtms_loop (ch # cs) res val =
     (if isdigit ch then dtms_loop cs res ((val * 10) + of_nat (digit_val ch))
      else if ch = CHR ''d'' then dtms_loop cs (res + (val * 86400)) 0
      else if ch = CHR ''h'' then dtms_loop cs (res + (val * 3600)) 0
      else if ch = CHR ''m'' then dtms_loop cs (res + (val * 60)) 0
      else if ch = CHR ''s'' then dtms_loop cs (res + val) 0
      else dtms_loop cs res val)"

definition p_dtms :: "string \<Rightarrow> tPToken \<Rightarrow> size_t" where
  "p_dtms buf aToken =
     (if start aToken = None \<or> len aToken \<le> 0 then 0
      else dtms_loop (token_text buf aToken) 0 0)"

text \<open>The loop of \<open>p_uint\<close>: it leaves at the first byte that is not a digit.\<close>

fun uint_loop :: "string \<Rightarrow> uint \<Rightarrow> uint" where
  "uint_loop [] val = val"
| "uint_loop (ch # cs) val =
     (if isdigit ch then uint_loop cs ((val * 10) + of_nat (digit_val ch)) else val)"

definition p_uint :: "string \<Rightarrow> tPToken \<Rightarrow> uint" where
  "p_uint buf aToken =
     (if start aToken = None \<or> len aToken \<le> 0 then 0
      else uint_loop (token_text buf aToken) 0)"

text \<open>
  The loop of \<open>p_float\<close> with \<open>val\<close>, \<open>frac\<close> (here \<open>fracv\<close>), \<open>fracDiv\<close> and \<open>isFrac\<close>; it returns the
  three numbers the last line of \<open>p_float\<close> combines. First in exact arithmetic, for
  the number that the bytes of the token denote: \<open>fracDiv\<close> is a real number here and
  nothing is rounded.
\<close>

fun float_loop :: "string \<Rightarrow> size_t \<Rightarrow> size_t \<Rightarrow> real \<Rightarrow> bool \<Rightarrow> size_t \<times> size_t \<times> real" where
  "float_loop [] val fracv fracDiv isFrac = (val, fracv, fracDiv)"
| "float_loop (ch # cs) val fracv fracDiv isFrac =
     (if isdigit ch then
        (if \<not> isFrac then float_loop cs ((val * 10) + of_nat (digit_val ch)) fracv fracDiv isFrac
         else float_loop cs val ((fracv * 10) + of_nat (digit_val ch)) (fracDiv * 10) isFrac)
      else if ch = CHR ''.'' then float_loop cs val fracv fracDiv True
      else (val, fracv, fracDiv))"

definition float_result :: "real \<Rightarrow> size_t \<times> size_t \<times> real \<Rightarrow> real" where
  "float_result sign r =
     (case r of (val, fracv, fracDiv) \<Rightarrow> sign * (real (unat val) + (real (unat fracv) / fracDiv)))"

definition p_float :: "string \<Rightarrow> tPToken \<Rightarrow> real" where
  "p_float buf aToken =
     (if start aToken = None \<or> len aToken \<le> 0 then 0
      else (case token_text buf aToken of
              [] \<Rightarrow> 0 \<comment> \<open>a token outside the buffer; the parse pass makes none\<close>
            | ch # cs \<Rightarrow>
                if ch = CHR ''-'' then float_result (- 1) (float_loop cs 0 0 1 False)
                else float_result 1 (float_loop (ch # cs) 0 0 1 False)))"

text \<open>
  Then as the program computes it: \<open>fracDiv\<close> is a \<open>float\<close>, \<open>fracDiv *= 10.0f\<close> rounds,
  and the last line converts \<open>sign\<close>, \<open>val\<close> and \<open>frac\<close> to \<open>float\<close> and divides, adds and
  multiplies in \<open>float\<close>. This is the value that \<open>p_float\<close> returns to the caller.
\<close>

fun float_loop32 :: "string \<Rightarrow> size_t \<Rightarrow> size_t \<Rightarrow> cfloat \<Rightarrow> bool \<Rightarrow> size_t \<times> size_t \<times> cfloat" where
  "float_loop32 [] val fracv fracDiv isFrac = (val, fracv, fracDiv)"
| "float_loop32 (ch # cs) val fracv fracDiv isFrac =
     (if isdigit ch then
        (if \<not> isFrac then float_loop32 cs ((val * 10) + of_nat (digit_val ch)) fracv fracDiv isFrac
         else float_loop32 cs val ((fracv * 10) + of_nat (digit_val ch)) (fl_mul fracDiv (Fin 10)) isFrac)
      else if ch = CHR ''.'' then float_loop32 cs val fracv fracDiv True
      else (val, fracv, fracDiv))"

definition float_result32 :: "cfloat \<Rightarrow> size_t \<times> size_t \<times> cfloat \<Rightarrow> cfloat" where
  "float_result32 sign r =
     (case r of (val, fracv, fracDiv) \<Rightarrow>
        fl_mul sign (fl_add (fl_of_size val) (fl_div (fl_of_size fracv) fracDiv)))"

definition p_float32 :: "string \<Rightarrow> tPToken \<Rightarrow> cfloat" where
  "p_float32 buf aToken =
     (if start aToken = None \<or> len aToken \<le> 0 then Fin 0
      else (case token_text buf aToken of
              [] \<Rightarrow> Fin 0 \<comment> \<open>a token outside the buffer; the parse pass makes none\<close>
            | ch # cs \<Rightarrow>
                if ch = CHR ''-'' then float_result32 (Fin (- 1)) (float_loop32 cs 0 0 (Fin 1) False)
                else float_result32 (Fin 1) (float_loop32 (ch # cs) 0 0 (Fin 1) False)))"

section \<open>The state of the parse pass\<close>

datatype tState =
  ST_LINE_START | ST_FIND_LINE_START | ST_GCODE | ST_COMMENT | ST_PARAMETER_VALUE
  | ST_THUMBNAIL | ST_THUMBNAIL_TAIL

datatype tParam = P_G | P_X | P_Y | P_Z | P_E | P_UNKNOWN

text \<open>
  The metadata tokens \<open>valueToken\<close> can point to. \<open>valueToken\<close> is \<open>None\<close> for \<open>NULL\<close> and
  \<open>Some k\<close> for the address of the token of slot \<open>k\<close>; the tokens themselves are the
  store \<open>slots\<close>.
\<close>

datatype slot =
  FilamentUsed | FirstLayerHeight | LayerHeight | EstTime | NozzleTemp0 | NozzleTemp1
  | PlateTemp | PrintSpeed

text \<open>
  The local variables of \<open>processFile\<close> that the parse loop reads and writes. The
  coordinates \<open>x\<close>, \<open>y\<close>, \<open>z\<close> of the source are \<open>curX\<close>, \<open>curY\<close>, \<open>curZ\<close>.
\<close>

record lexer =
  prevExt :: bool
  isAbsPos :: bool
  hasLayerChange :: bool
  code :: uint
  paramX :: cfloat
  paramY :: cfloat
  paramZ :: cfloat
  paramE :: cfloat
  curX :: cfloat
  curY :: cfloat
  curZ :: cfloat
  minX :: cfloat
  minY :: cfloat
  minZ :: cfloat
  maxX :: cfloat
  maxY :: cfloat
  maxZ :: cfloat
  lineNr :: nat
  origThumbnailLines :: nat
  origThumbnail :: tPToken
  slots :: "slot \<Rightarrow> tPToken"
  thumbnail :: tPToken
  aToken :: tPToken
  valueToken :: "slot option"
  lineStart :: nat
  state :: tState
  param :: tParam

definition init :: lexer where
  "init = \<lparr>prevExt = False, isAbsPos = True, hasLayerChange = False, code = - 1,
     paramX = NaN, paramY = NaN, paramZ = NaN, paramE = NaN,
     curX = NaN, curY = NaN, curZ = NaN,
     minX = PosInf, minY = PosInf, minZ = PosInf,
     maxX = NegInf, maxY = NegInf, maxZ = NegInf,
     lineNr = 1, origThumbnailLines = 0, origThumbnail = null_token,
     slots = (\<lambda>k. null_token), thumbnail = null_token, aToken = null_token,
     valueToken = None, lineStart = 0, state = ST_LINE_START, param = P_UNKNOWN\<rparr>"

text \<open>\<open>GCODE(type, num)\<close> with \<open>type\<close> the letter G (71).\<close>

definition GCODE_G :: "uint \<Rightarrow> uint" where
  "GCODE_G num = (push_bit 16 (71 :: uint)) OR num"

text \<open>What one iteration of the loop does: go on, leave to \<open>onSuccess\<close>, or read through a
  pointer that is \<open>NULL\<close> or outside the buffer.\<close>

datatype 'a flow = Next 'a | AlreadyProcessed | Fault

section \<open>The geometry tracker\<close>

text \<open>\<open>if (minX > x) minX = x;\<close> and \<open>if (maxX < x) maxX = x;\<close>\<close>

definition lower :: "cfloat \<Rightarrow> cfloat \<Rightarrow> cfloat" where
  "lower mn v = (if fl_less v mn then v else mn)"

definition raise :: "cfloat \<Rightarrow> cfloat \<Rightarrow> cfloat" where
  "raise mx v = (if fl_less mx v then v else mx)"

text \<open>The three folds of a position into the box; \<open>gx\<close>, \<open>gy\<close>, \<open>gz\<close> are the guards
  \<open>IS_SET(...)\<close> of the three blocks.\<close>

definition fold_box :: "bool \<Rightarrow> bool \<Rightarrow> bool \<Rightarrow> lexer \<Rightarrow> lexer" where
  "fold_box gx gy gz s =
     (let s1 = (if gx then s\<lparr>minX := lower (minX s) (curX s), maxX := raise (maxX s) (curX s)\<rparr> else s);
          s2 = (if gy then s1\<lparr>minY := lower (minY s1) (curY s1), maxY := raise (maxY s1) (curY s1)\<rparr> else s1)
      in (if gz then s2\<lparr>minZ := lower (minZ s2) (curZ s2), maxZ := raise (maxZ s2) (curZ s2)\<rparr> else s2))"

text \<open>\<open>if (IS_SET(paramX)) { if (isAbsPos != 0) x = paramX; else x += paramX; }\<close>\<close>

definition new_pos :: "bool \<Rightarrow> cfloat \<Rightarrow> cfloat \<Rightarrow> cfloat" where
  "new_pos absPos cur p = (if IS_SET p then (if absPos then p else fl_add cur p) else cur)"

definition extrudes :: "lexer \<Rightarrow> bool" where
  "extrudes s = (IS_SET (paramE s) \<and> fl_less (Fin 0) (paramE s))"

definition linear_move :: "lexer \<Rightarrow> lexer" where
  "linear_move s =
     (let s1 = (if extrudes s \<and> \<not> prevExt s
                then fold_box (IS_SET (curX s)) (IS_SET (curY s)) (IS_SET (curZ s)) s else s);
          s2 = s1\<lparr>curX := new_pos (isAbsPos s1) (curX s1) (paramX s1),
                  curY := new_pos (isAbsPos s1) (curY s1) (paramY s1),
                  curZ := new_pos (isAbsPos s1) (curZ s1) (paramZ s1)\<rparr>
      in (if extrudes s2
          then (fold_box (IS_SET (paramX s2)) (IS_SET (paramY s2)) (IS_SET (paramZ s2)) s2)
                 \<lparr>prevExt := True\<rparr>
          else s2\<lparr>prevExt := False\<rparr>))"

text \<open>\<open>switch (code)\<close> at the end of a command line.\<close>

definition dispatch :: "lexer \<Rightarrow> lexer" where
  "dispatch s =
     (if code s = GCODE_G 0 \<or> code s = GCODE_G 1 then linear_move s
      else if code s = GCODE_G 90 then s\<lparr>isAbsPos := True\<rparr>
      else if code s = GCODE_G 91 then s\<lparr>isAbsPos := False\<rparr>
      else s)"

definition reset_box :: "lexer \<Rightarrow> lexer" where
  "reset_box s = s\<lparr>minX := PosInf, minY := PosInf, minZ := PosInf,
                    maxX := NegInf, maxY := NegInf, maxZ := NegInf\<rparr>"

section \<open>The lexer\<close>

text \<open>
  One function for each \<open>case\<close> of \<open>switch (state)\<close>. \<open>it\<close> is the position of the
  current byte \<open>ch\<close> in the buffer \<open>buf\<close>. \<open>feat\<close> says whether the program was compiled
  with \<open>FEATURE_REMOVE_ORIG_THUMBNAIL\<close>, which is defined outside \<open>sm2pspp.c\<close>.
\<close>

definition st_line_start :: "nat \<Rightarrow> char \<Rightarrow> lexer \<Rightarrow> lexer" where
  "st_line_start it ch s =
     (if ch = CHR '';'' then s\<lparr>aToken := null_token, state := ST_COMMENT\<rparr>
      else if ch = CHR ''G'' then
        s\<lparr>param := P_G, paramX := NaN, paramY := NaN, paramZ := NaN, paramE := NaN,
          aToken := \<lparr>start = Some (it + 1), len = 0\<rparr>, state := ST_GCODE\<rparr>
      else if \<not> isspace ch then s\<lparr>state := ST_FIND_LINE_START\<rparr>
      else s)"

definition st_find_line_start :: "char \<Rightarrow> lexer \<Rightarrow> lexer" where
  "st_find_line_start ch s = (if ch = CHR 0x0A then s\<lparr>state := ST_LINE_START\<rparr> else s)"

text \<open>\<open>switch (param)\<close> at the end of a token, and \<open>param = P_UNKNOWN\<close> after it.\<close>

definition end_of_token :: "string \<Rightarrow> lexer \<Rightarrow> lexer" where
  "end_of_token buf s =
     (case param s of
        P_G \<Rightarrow> s\<lparr>code := GCODE_G (p_uint buf (aToken s))\<rparr>
      | P_X \<Rightarrow> s\<lparr>paramX := p_float32 buf (aToken s)\<rparr>
      | P_Y \<Rightarrow> s\<lparr>paramY := p_float32 buf (aToken s)\<rparr>
      | P_Z \<Rightarrow> s\<lparr>paramZ := p_float32 buf (aToken s)\<rparr>
      | P_E \<Rightarrow> s\<lparr>paramE := p_float32 buf (aToken s)\<rparr>
      | P_UNKNOWN \<Rightarrow> s)\<lparr>param := P_UNKNOWN\<rparr>"

definition st_gcode :: "string \<Rightarrow> nat \<Rightarrow> char \<Rightarrow> lexer \<Rightarrow> lexer" where
  "st_gcode buf it ch s =
     (if isdigit ch \<or> (param s \<noteq> P_G \<and> (ch = CHR ''.'' \<or> (len (aToken s) = 0 \<and> ch = CHR ''-'')))
      then s\<lparr>aToken := (aToken s)\<lparr>len := len (aToken s) + 1\<rparr>\<rparr>
      else if ch = CHR ''X'' then s\<lparr>param := P_X, aToken := \<lparr>start = Some (it + 1), len = 0\<rparr>\<rparr>
      else if ch = CHR ''Y'' then s\<lparr>param := P_Y, aToken := \<lparr>start = Some (it + 1), len = 0\<rparr>\<rparr>
      else if ch = CHR ''Z'' then s\<lparr>param := P_Z, aToken := \<lparr>start = Some (it + 1), len = 0\<rparr>\<rparr>
      else if ch = CHR ''E'' then s\<lparr>param := P_E, aToken := \<lparr>start = Some (it + 1), len = 0\<rparr>\<rparr>
      else
        (let s1 = end_of_token buf s in
         if ch = CHR 0x0A \<or> ch = CHR '';'' then
           (let s2 = dispatch s1 in
            if ch = CHR 0x0A then s2\<lparr>state := ST_LINE_START\<rparr>
            else s2\<lparr>aToken := null_token, state := ST_COMMENT\<rparr>)
         else s1))"

text \<open>
  The pointer difference \<open>p - t.start\<close> as a \<open>size_t\<close>. At each use the start of the
  token is not \<open>NULL\<close> and not behind \<open>p\<close>: the enclosing branch has tested it, or the
  state was entered through the code that sets it.
\<close>

definition ptr_diff :: "nat \<Rightarrow> tPToken \<Rightarrow> nat" where
  "ptr_diff p t = p - (case start t of None \<Rightarrow> 0 | Some a \<Rightarrow> a)"

text \<open>The chain of comparisons of the key before \<open>=\<close>.\<close>

definition key_slot :: "string \<Rightarrow> tPToken \<Rightarrow> slot option" where
  "key_slot buf t =
     (if p_cmpToken buf t ''filament used [mm]'' = 0 then Some FilamentUsed
      else if p_cmpToken buf t ''first_layer_height'' = 0 then Some FirstLayerHeight
      else if p_cmpToken buf t ''layer_height'' = 0 then Some LayerHeight
      else if p_cmpTokenStart buf t ''estimated printing time'' = 0 then Some EstTime
      else if p_cmpToken buf t ''first_layer_temperature'' = 0 then Some NozzleTemp0
      else if p_cmpToken buf t ''first_layer_bed_temperature'' = 0 then Some PlateTemp
      else if p_cmpToken buf t ''max_print_speed'' = 0 then Some PrintSpeed
      else None)"

definition comment_key :: "string \<Rightarrow> nat \<Rightarrow> lexer \<Rightarrow> lexer" where
  "comment_key buf it s =
     (let t = (if len (aToken s) = 0
               then (aToken s)\<lparr>len := ptr_diff it (aToken s)\<rparr>
               else aToken s);
          s1 = s\<lparr>aToken := t\<rparr>;
          s2 = (case key_slot buf t of
                  Some k \<Rightarrow> s1\<lparr>valueToken := Some k\<rparr>
                | None \<Rightarrow> s1\<lparr>state := ST_FIND_LINE_START\<rparr>)
      in (case valueToken s2 of
            None \<Rightarrow> s2
          | Some k \<Rightarrow>
              if start (slots s2 k) = None
              then s2\<lparr>aToken := null_token, state := ST_PARAMETER_VALUE\<rparr>
              else s2\<lparr>aToken := null_token, valueToken := None, state := ST_FIND_LINE_START\<rparr>))"

definition thumbnail_begin :: "bool \<Rightarrow> lexer \<Rightarrow> lexer" where
  "thumbnail_begin feat s =
     (let s1 = (if feat \<and> start (origThumbnail s) = None
                then s\<lparr>origThumbnail := (origThumbnail s)\<lparr>start := Some (lineStart s)\<rparr>,
                       origThumbnailLines := 1\<rparr>
                else s)
      in s1\<lparr>aToken := null_token,
             state := (if start (thumbnail s1) = None then ST_THUMBNAIL else ST_FIND_LINE_START)\<rparr>)"

definition st_comment :: "bool \<Rightarrow> string \<Rightarrow> nat \<Rightarrow> char \<Rightarrow> lexer \<Rightarrow> lexer flow" where
  "st_comment feat buf it ch s =
     (if ch = CHR 0x0A then
        (let s1 = s\<lparr>state := ST_LINE_START\<rparr> in
         if p_cmpToken buf (aToken s1) ''LAYER_CHANGE'' = 0 \<and> \<not> hasLayerChange s1
         then Next (reset_box (s1\<lparr>hasLayerChange := True\<rparr>))
         else Next s1)
      else if start (aToken s) = None then
        (if \<not> isspace ch then Next (s\<lparr>aToken := \<lparr>start = Some it, len = 1\<rparr>\<rparr>) else Next s)
      else if ch = CHR '' '' \<and> len (aToken s) > 0 then
        (if p_cmpToken buf (aToken s) ''post-processed by sm2pspp'' = 0 then AlreadyProcessed
         else if p_cmpToken buf (aToken s) ''thumbnail begin'' = 0 then Next (thumbnail_begin feat s)
         else Next s)
      else if ch = CHR ''='' then Next (comment_key buf it s)
      else if \<not> isspace ch then
        Next (s\<lparr>aToken := (aToken s)\<lparr>len := ptr_diff it (aToken s) + 1\<rparr>\<rparr>)
      else Next s)"

text \<open>\<open>valueToken->length = (size_t)(it - valueToken->start + 1)\<close> in slot \<open>k\<close>.\<close>

definition set_slot_len :: "slot \<Rightarrow> nat \<Rightarrow> lexer \<Rightarrow> lexer" where
  "set_slot_len k it s =
     s\<lparr>slots := (slots s)(k := (slots s k)\<lparr>len := ptr_diff it (slots s k) + 1\<rparr>)\<rparr>"

definition st_parameter_value :: "nat \<Rightarrow> char \<Rightarrow> lexer \<Rightarrow> lexer flow" where
  "st_parameter_value it ch s =
     (if ch = CHR 0x0A then Next (s\<lparr>valueToken := None, state := ST_LINE_START\<rparr>)
      else (case valueToken s of
              None \<Rightarrow> Fault
            | Some k \<Rightarrow>
                if start (slots s k) = None then
                  (if \<not> isspace ch
                   then Next (s\<lparr>slots := (slots s)(k := \<lparr>start = Some it, len = 1\<rparr>)\<rparr>)
                   else Next s)
                else if ch = CHR '','' \<and> k = NozzleTemp0 then
                  Next ((set_slot_len k it s)\<lparr>valueToken := Some NozzleTemp1\<rparr>)
                else if \<not> isspace ch then Next (set_slot_len k it s)
                else Next s))"

text \<open>The marker \<open>thumbnail end\<close> was read: close the payload and, with the feature, the span
  of the original block.\<close>

definition thumbnail_end :: "bool \<Rightarrow> nat \<Rightarrow> lexer \<Rightarrow> lexer" where
  "thumbnail_end feat it s =
     (let s1 = s\<lparr>thumbnail := (thumbnail s)\<lparr>len := ptr_diff (lineStart s) (thumbnail s)\<rparr>\<rparr>
      in if feat
         then s1\<lparr>origThumbnail := (origThumbnail s1)\<lparr>len := ptr_diff it (origThumbnail s1)\<rparr>,
                 state := ST_THUMBNAIL_TAIL\<rparr>
         else s1\<lparr>state := ST_FIND_LINE_START\<rparr>)"

text \<open>With the feature, the lines of the thumbnail are counted.\<close>

definition count_thumbnail_line :: "bool \<Rightarrow> char \<Rightarrow> lexer \<Rightarrow> lexer" where
  "count_thumbnail_line feat ch s =
     (if feat \<and> ch = CHR 0x0A then s\<lparr>origThumbnailLines := origThumbnailLines s + 1\<rparr> else s)"

definition st_thumbnail :: "bool \<Rightarrow> string \<Rightarrow> nat \<Rightarrow> char \<Rightarrow> lexer \<Rightarrow> lexer flow" where
  "st_thumbnail feat buf it ch s =
     (let s0 = count_thumbnail_line feat ch s in
      if start (thumbnail s0) = None then
        (if ch = CHR 0x0A then Next (s0\<lparr>thumbnail := (thumbnail s0)\<lparr>start := Some (it + 1)\<rparr>\<rparr>)
         else Next s0)
      else if ch = CHR '';'' then Next (s0\<lparr>aToken := \<lparr>start = Some (it + 1), len = 0\<rparr>\<rparr>)
      else (case start (aToken s0) of
              None \<Rightarrow> Next s0
            | Some a \<Rightarrow>
                if \<not> a < length buf then Fault
                else if isspace (buf ! a) then Next (s0\<lparr>aToken := \<lparr>start = Some it, len = 1\<rparr>\<rparr>)
                else
                  (let s1 = s0\<lparr>aToken := (aToken s0)\<lparr>len := len (aToken s0) + 1\<rparr>\<rparr> in
                   if p_cmpToken buf (aToken s1) ''thumbnail end'' = 0
                   then Next (thumbnail_end feat it s1)
                   else Next s1)))"

definition st_thumbnail_tail :: "nat \<Rightarrow> char \<Rightarrow> lexer \<Rightarrow> lexer" where
  "st_thumbnail_tail it ch s =
     (if ch = CHR 0x0A
      then s\<lparr>origThumbnail := (origThumbnail s)\<lparr>len := ptr_diff (it + 1) (origThumbnail s)\<rparr>,
             state := ST_LINE_START\<rparr>
      else s)"

text \<open>The end of the loop body: the line counter and the start of the line.\<close>

definition count_line :: "nat \<Rightarrow> char \<Rightarrow> lexer \<Rightarrow> lexer" where
  "count_line it ch s =
     (if ch = CHR 0x0A then s\<lparr>lineNr := lineNr s + 1, lineStart := it + 1\<rparr>
      else if ch = CHR 0x0D then s\<lparr>lineStart := it + 1\<rparr>
      else s)"

definition switch_state :: "bool \<Rightarrow> string \<Rightarrow> nat \<Rightarrow> char \<Rightarrow> lexer \<Rightarrow> lexer flow" where
  "switch_state feat buf it ch s =
     (case state s of
        ST_LINE_START \<Rightarrow> Next (st_line_start it ch s)
      | ST_FIND_LINE_START \<Rightarrow> Next (st_find_line_start ch s)
      | ST_GCODE \<Rightarrow> Next (st_gcode buf it ch s)
      | ST_COMMENT \<Rightarrow> st_comment feat buf it ch s
      | ST_PARAMETER_VALUE \<Rightarrow> st_parameter_value it ch s
      | ST_THUMBNAIL \<Rightarrow> st_thumbnail feat buf it ch s
      | ST_THUMBNAIL_TAIL \<Rightarrow> Next (st_thumbnail_tail it ch s))"

text \<open>One iteration of the \<open>for\<close> loop, at position \<open>it\<close> of the buffer.\<close>

definition lex_step :: "bool \<Rightarrow> string \<Rightarrow> nat \<Rightarrow> lexer \<Rightarrow> lexer flow" where
  "lex_step feat buf it s =
     (case switch_state feat buf it (buf ! it) s of
        Next s' \<Rightarrow> Next (count_line it (buf ! it) s')
      | AlreadyProcessed \<Rightarrow> AlreadyProcessed
      | Fault \<Rightarrow> Fault)"

text \<open>The loop over the positions \<open>its\<close>, and the whole pass over the buffer.\<close>

fun scan :: "bool \<Rightarrow> string \<Rightarrow> nat list \<Rightarrow> lexer \<Rightarrow> lexer flow" where
  "scan feat buf [] s = Next s"
| "scan feat buf (it # its) s =
     (case lex_step feat buf it s of
        Next s' \<Rightarrow> scan feat buf its s'
      | AlreadyProcessed \<Rightarrow> AlreadyProcessed
      | Fault \<Rightarrow> Fault)"

definition parse :: "bool \<Rightarrow> string \<Rightarrow> lexer flow" where
  "parse feat buf = scan feat buf [0..<length buf] init"

section \<open>After the pass: warnings, header and rewriting\<close>

text \<open>\<open>minZ -= p_float(&firstLayerHeight)\<close> when the height was captured and the box is
  not empty in z.\<close>

definition correct_minZ :: "string \<Rightarrow> lexer \<Rightarrow> lexer" where
  "correct_minZ buf s =
     (if start (slots s FirstLayerHeight) \<noteq> None \<and> len (slots s FirstLayerHeight) > 0
         \<and> fl_less (minZ s) (maxZ s)
      then s\<lparr>minZ := fl_sub (minZ s) (p_float32 buf (slots s FirstLayerHeight))\<rparr>
      else s)"

datatype tMessage =
  MSGT_SUCCESS | MSGT_ERR_NO_MEM | MSGT_ERR_FILE_NOT_FOUND | MSGT_ERR_FILE_OPEN
  | MSGT_ERR_FILE_READ | MSGT_ERR_FILE_CREATE | MSGT_ERR_FILE_WRITE
  | MSGT_WARN_NO_FILAMENT_USED | MSGT_WARN_NO_LAYER_HEIGHT | MSGT_WARN_NO_EST_TIME
  | MSGT_WARN_NO_NOZZLE_TEMP | MSGT_WARN_NO_PLATE_TEMP | MSGT_WARN_NO_PRINT_SPEED
  | MSGT_WARN_NO_THUMBNAIL

text \<open>The callback \<open>cb(msg, file, lineNr)\<close>.\<close>

type_synonym tCallback = "tMessage \<Rightarrow> string \<Rightarrow> nat \<Rightarrow> int"

text \<open>
  What \<open>processFile\<close> does to the outside, in order: the input file is opened, the parse
  loop is left at its end, the callback is called, the file is opened for writing (which
  truncates it), and the new content is written completely.
\<close>

datatype event = OpenRead | Parsed | Callback tMessage nat | OpenWrite | WriteDone

definition missing :: "tPToken \<Rightarrow> bool" where
  "missing t = (start t = None \<or> len t = 0)"

text \<open>The seven checks for missing tokens, in the order of the source.\<close>

definition missing_tokens :: "lexer \<Rightarrow> tMessage list" where
  "missing_tokens s =
     (if missing (slots s FilamentUsed) then [MSGT_WARN_NO_FILAMENT_USED] else []) @
     (if missing (slots s LayerHeight) then [MSGT_WARN_NO_LAYER_HEIGHT] else []) @
     (if missing (slots s EstTime) then [MSGT_WARN_NO_EST_TIME] else []) @
     (if missing (slots s NozzleTemp0) then [MSGT_WARN_NO_NOZZLE_TEMP] else []) @
     (if missing (slots s PlateTemp) then [MSGT_WARN_NO_PLATE_TEMP] else []) @
     (if missing (slots s PrintSpeed) then [MSGT_WARN_NO_PRINT_SPEED] else []) @
     (if missing (thumbnail s) then [MSGT_WARN_NO_THUMBNAIL] else [])"

text \<open>\<open>ON_WARN\<close> for each of them: the calls made, and whether all of them returned 1.\<close>

fun on_warns :: "tCallback \<Rightarrow> string \<Rightarrow> nat \<Rightarrow> tMessage list \<Rightarrow> event list \<times> bool" where
  "on_warns cb file line [] = ([], True)"
| "on_warns cb file line (msg # msgs) =
     (if cb msg file line \<noteq> 1 then ([Callback msg line], False)
      else (case on_warns cb file line msgs of (evs, ok) \<Rightarrow> (Callback msg line # evs, ok)))"

text \<open>
  The header: for each line that carries a value, the value handed to \<open>fprintf\<close>; an
  optional line is \<open>None\<close> when it is not printed. How \<open>fprintf\<close> formats a number is
  not modelled.
\<close>

record header =
  filament_used :: cfloat
  layer_height :: cfloat
  thumbnail_data :: "string option"
  file_total_lines :: nat
  estimated_time :: cfloat
  nozzle_temperature :: cfloat
  nozzle_1_temperature :: "cfloat option"
  build_plate_temperature :: cfloat
  work_speed :: cfloat
  max_x :: cfloat
  max_y :: cfloat
  max_z :: cfloat
  min_x :: cfloat
  min_y :: cfloat
  min_z :: cfloat

definition is_base64 :: "char \<Rightarrow> bool" where
  "is_base64 ch =
     (let c = (of_char ch :: nat) in
      (48 \<le> c \<and> c \<le> 57) \<or> (97 \<le> c \<and> c \<le> 122) \<or> (65 \<le> c \<and> c \<le> 90)
      \<or> ch = CHR ''+'' \<or> ch = CHR ''/'' \<or> ch = CHR ''='')"

text \<open>The loop that prints the thumbnail: \<open>run\<close> is the run of Base64 bytes in \<open>aToken\<close>,
  written at the next other byte; \<open>out\<close> is what has been written.\<close>

fun thumbnail_loop :: "string \<Rightarrow> string \<Rightarrow> string \<Rightarrow> string" where
  "thumbnail_loop [] run out = out"
| "thumbnail_loop (ch # cs) run out =
     (if is_base64 ch then thumbnail_loop cs (run @ [ch]) out
      else if run \<noteq> [] then thumbnail_loop cs [] (out @ run)
      else thumbnail_loop cs [] out)"

definition hasThumbnail :: "lexer \<Rightarrow> bool" where
  "hasThumbnail s = (start (thumbnail s) \<noteq> None \<or> len (thumbnail s) > 0)"

definition nozzleTemp1Val :: "string \<Rightarrow> lexer \<Rightarrow> cfloat" where
  "nozzleTemp1Val buf s =
     (if start (slots s NozzleTemp1) \<noteq> None \<and> len (slots s NozzleTemp1) > 0
      then p_float32 buf (slots s NozzleTemp1) else Fin 0)"

text \<open>In \<open>nozzleTemp1Val > 0.1f\<close> the constant is the \<open>float\<close> nearest to one tenth.
  \<open>lineNr\<close> after \<open>lineNr++\<close> for the second nozzle and, with the feature, after
  \<open>lineNr - origThumbnailLines\<close>.\<close>

definition header_lineNr :: "bool \<Rightarrow> string \<Rightarrow> lexer \<Rightarrow> nat" where
  "header_lineNr feat buf s =
     (let l1 = (if fl_less (f32 (1 / 10)) (nozzleTemp1Val buf s) then lineNr s + 1 else lineNr s)
      in if feat then l1 - origThumbnailLines s else l1)"

definition make_header :: "bool \<Rightarrow> string \<Rightarrow> lexer \<Rightarrow> header" where
  "make_header feat buf s =
     \<lparr>filament_used = fl_div (p_float32 buf (slots s FilamentUsed)) (Fin 1000),
      layer_height = p_float32 buf (slots s LayerHeight),
      thumbnail_data =
        (if hasThumbnail s then Some (thumbnail_loop (token_text buf (thumbnail s)) [] []) else None),
      file_total_lines = header_lineNr feat buf s + 24 + (if hasThumbnail s then 1 else 0),
      estimated_time = fl_of_size (p_dtms buf (slots s EstTime)),
      nozzle_temperature = p_float32 buf (slots s NozzleTemp0),
      nozzle_1_temperature =
        (if fl_less (f32 (1 / 10)) (nozzleTemp1Val buf s) then Some (nozzleTemp1Val buf s) else None),
      build_plate_temperature = p_float32 buf (slots s PlateTemp),
      work_speed = fl_mul (p_float32 buf (slots s PrintSpeed)) (Fin 60),
      max_x = maxX s, max_y = maxY s, max_z = maxZ s,
      min_x = minX s, min_y = minY s, min_z = minZ s\<rparr>"

text \<open>
  What the calls of the C library do is given by \<open>io\<close>: whether \<open>fopen\<close>, \<open>malloc\<close> and
  \<open>fread\<close> succeed, whether \<open>ferror\<close> is clear after the header, and whether \<open>fwrite\<close> of
  a block that is not empty writes it (\<open>fwrite\<close> of an empty block returns 0).
\<close>

record io =
  fopen_rb_ok :: bool
  malloc_ok :: bool
  fread_ok :: bool
  fopen_wb_ok :: bool
  header_ok :: bool
  fwrite_ok :: bool

text \<open>The target file after the call: as it was, rewritten with a header and a body, or
  truncated and not written completely.\<close>

datatype outfile = Unchanged | Written header string | Truncated

record result =
  res :: int
  trace :: "event list"
  out :: outfile

text \<open>The blocks of the body that are written, one \<open>fwrite\<close> each.\<close>

definition body_blocks :: "bool \<Rightarrow> string \<Rightarrow> lexer \<Rightarrow> string list" where
  "body_blocks feat buf s =
     (case (if feat then start (origThumbnail s) else None) of
        Some a \<Rightarrow>
          if len (origThumbnail s) \<noteq> 0
          then [take a buf, drop (a + len (origThumbnail s)) buf]
          else [buf]
      | None \<Rightarrow> [buf])"

definition rewrite :: "bool \<Rightarrow> io \<Rightarrow> tCallback \<Rightarrow> string \<Rightarrow> string \<Rightarrow> lexer \<Rightarrow> event list \<Rightarrow> result" where
  "rewrite feat env cb file buf s evs =
     (if \<not> fopen_wb_ok env
      then \<lparr>res = 0, trace = evs @ [Callback MSGT_ERR_FILE_CREATE (lineNr s)], out = Unchanged\<rparr>
      else if \<not> header_ok env \<or> \<not> list_all (\<lambda>b. b \<noteq> [] \<and> fwrite_ok env) (body_blocks feat buf s)
      then \<lparr>res = 0,
            trace = evs @ [OpenWrite, Callback MSGT_ERR_FILE_WRITE (header_lineNr feat buf s)],
            out = Truncated\<rparr>
      else \<lparr>res = 1, trace = evs @ [OpenWrite, WriteDone],
            out = Written (make_header feat buf s) (concat (body_blocks feat buf s))\<rparr>)"

text \<open>
  \<open>processFile(file, cb)\<close> for a file with the bytes \<open>content\<close>. \<open>None\<close> for \<open>file\<close> or
  \<open>cb\<close> is \<open>NULL\<close>. The result is \<open>None\<close> when the pass reads through an invalid pointer.
\<close>

definition processFile ::
  "bool \<Rightarrow> io \<Rightarrow> string option \<Rightarrow> tCallback option \<Rightarrow> string \<Rightarrow> result option" where
  "processFile feat env file cb content =
     (case (file, cb) of
        (Some path, Some cbf) \<Rightarrow>
          if \<not> fopen_rb_ok env
          then Some \<lparr>res = 0, trace = [Callback MSGT_ERR_FILE_OPEN 1], out = Unchanged\<rparr>
          else if length content < 1
          then Some \<lparr>res = 1, trace = [OpenRead], out = Unchanged\<rparr>
          else if \<not> malloc_ok env
          then Some \<lparr>res = 0, trace = [OpenRead, Callback MSGT_ERR_NO_MEM 1], out = Unchanged\<rparr>
          else if \<not> fread_ok env
          then Some \<lparr>res = 0, trace = [OpenRead, Callback MSGT_ERR_FILE_READ 1], out = Unchanged\<rparr>
          else
            (case parse feat content of
               AlreadyProcessed \<Rightarrow> Some \<lparr>res = 1, trace = [OpenRead], out = Unchanged\<rparr>
             | Fault \<Rightarrow> None
             | Next s0 \<Rightarrow>
                 (let s = correct_minZ content s0 in
                  case on_warns cbf path (lineNr s) (missing_tokens s) of
                    (evs, ok) \<Rightarrow>
                      if \<not> ok
                      then Some \<lparr>res = 0, trace = [OpenRead, Parsed] @ evs, out = Unchanged\<rparr>
                      else Some (rewrite feat env cbf path content s ([OpenRead, Parsed] @ evs))))
      | _ \<Rightarrow> Some \<lparr>res = 0, trace = [], out = Unchanged\<rparr>)"

text \<open>
  The bytes of a rewritten file: the first line of the header, which \<open>fprintf\<close> prints
  from a constant string and \<open>PROGRAM_VERSION_STR\<close> (\<open>ver\<close>), then the other lines of the
  header as some \<open>fmt\<close> prints them, then the body.
\<close>

definition first_line :: "string \<Rightarrow> string" where
  "first_line ver =
     '';post-processed by sm2pspp '' @ ver @ '' (https://github.com/daniel-starke/sm2pspp)'' @ [CHR 0x0A]"

fun file_bytes :: "string \<Rightarrow> (header \<Rightarrow> string) \<Rightarrow> string \<Rightarrow> outfile \<Rightarrow> string option" where
  "file_bytes ver fmt old Unchanged = Some old"
| "file_bytes ver fmt old (Written h body) = Some (first_line ver @ fmt h @ body)"
| "file_bytes ver fmt old Truncated = None"

section \<open>The grammar of the float parser, as a specification\<close>







section \<open>Sample inputs\<close>

definition eol :: string where
  "eol = [CHR 0x0A]"

text \<open>A single move that only feeds material, as after a retraction.\<close>

definition sample_feed_only :: string where
  "sample_feed_only = ''G1 E1'' @ eol"

definition sample_two_moves :: string where
  "sample_two_moves = ''G1 X1 Y2 Z3 E1'' @ eol @ ''G1 X5 Y-2.5 E1'' @ eol"

definition sample_travel :: string where
  "sample_travel = ''G1 X1 Y2'' @ eol"

text \<open>The counters of lines: the lines of the thumbnail are among the lines read.\<close>

definition lines_ok :: "lexer \<Rightarrow> bool" where
  "lines_ok s = (origThumbnailLines s \<le> lineNr s \<and> 1 \<le> lineNr s)"

definition sample_one_line :: string where
  "sample_one_line = ''G28'' @ eol"

definition sample_two_lines :: string where
  "sample_two_lines = ''G28'' @ eol @ ''G28'' @ eol"

definition sample_dual_nozzle :: string where
  "sample_dual_nozzle = ''; first_layer_temperature = 210,200'' @ eol"

definition sample_thumbnail :: string where
  "sample_thumbnail =
     ''; thumbnail begin 16x16 8'' @ eol @ ''; AAAA'' @ eol @ ''; thumbnail end'' @ eol
     @ ''; first_layer_temperature = 210,200'' @ eol @ ''G1 X1 E1'' @ eol"

section \<open>Pointers that the pass reads through\<close>

text \<open>
  Before the byte at position \<open>n\<close> is read: in the state for a value, \<open>valueToken\<close>
  points to a token, and \<open>aToken\<close> starts at or before \<open>n\<close>.
\<close>

definition no_null :: "nat \<Rightarrow> lexer \<Rightarrow> bool" where
  "no_null n s =
     ((state s \<noteq> ST_PARAMETER_VALUE \<or> valueToken s \<noteq> None)
      \<and> (case start (aToken s) of None \<Rightarrow> True | Some a \<Rightarrow> a \<le> n))"

section \<open>Warnings in the trace\<close>

definition is_warning :: "tMessage \<Rightarrow> bool" where
  "is_warning msg =
     (msg \<in> set [MSGT_WARN_NO_FILAMENT_USED, MSGT_WARN_NO_LAYER_HEIGHT, MSGT_WARN_NO_EST_TIME,
                  MSGT_WARN_NO_NOZZLE_TEMP, MSGT_WARN_NO_PLATE_TEMP, MSGT_WARN_NO_PRINT_SPEED,
                  MSGT_WARN_NO_THUMBNAIL])"

text \<open>A call of the callback for a warning; one made with the line number \<open>n\<close>; one that
  the callback answers with something other than 1.\<close>

definition warn_event :: "event \<Rightarrow> bool" where
  "warn_event e = (case e of Callback msg line \<Rightarrow> is_warning msg | _ \<Rightarrow> False)"

definition warn_at_line :: "nat \<Rightarrow> event \<Rightarrow> bool" where
  "warn_at_line n e = (case e of Callback msg line \<Rightarrow> is_warning msg \<and> line = n | _ \<Rightarrow> False)"

definition stop_event :: "tCallback \<Rightarrow> string \<Rightarrow> event \<Rightarrow> bool" where
  "stop_event cb file e =
     (case e of Callback msg line \<Rightarrow> is_warning msg \<and> cb msg file line \<noteq> 1 | _ \<Rightarrow> False)"

text \<open>A callback that answers the warning for the estimated time with 0.\<close>

definition stop_at_est_time :: tCallback where
  "stop_at_est_time msg file line = (if msg = MSGT_WARN_NO_EST_TIME then 0 else 1)"

definition all_ok :: io where
  "all_ok = \<lparr>fopen_rb_ok = True, malloc_ok = True, fread_ok = True, fopen_wb_ok = True,
              header_ok = True, fwrite_ok = True\<rparr>"

section \<open>The metadata slots, as the claims speak of them\<close>

text \<open>
  The invariant of the slots: \<open>valueToken\<close> is \<open>NULL\<close> outside the state for a value;
  while the first nozzle is being captured the second nozzle is empty; the second nozzle
  is filled or being captured only when the first is filled.
\<close>

definition slot_inv :: "lexer \<Rightarrow> bool" where
  "slot_inv s =
     ((state s = ST_PARAMETER_VALUE \<or> valueToken s = None)
      \<and> (valueToken s \<noteq> Some NozzleTemp0 \<or> start (slots s NozzleTemp1) = None)
      \<and> (start (slots s NozzleTemp1) = None \<or> start (slots s NozzleTemp0) \<noteq> None)
      \<and> (valueToken s \<noteq> Some NozzleTemp1 \<or> start (slots s NozzleTemp0) \<noteq> None))"

definition sample_two_heights :: string where
  "sample_two_heights = ''; layer_height = 0.2'' @ eol @ ''; layer_height = 0.3'' @ eol"

text \<open>A filled slot keeps its start; when it is not the slot being captured, it keeps its
  token and is not taken up again.\<close>

definition kept :: "slot \<Rightarrow> lexer \<Rightarrow> lexer \<Rightarrow> bool" where
  "kept k s t =
     (start (slots t k) = start (slots s k)
      \<and> (valueToken s = Some k \<or> (slots t k = slots s k \<and> valueToken t \<noteq> Some k)))"

section \<open>The marker of a converted file\<close>

text \<open>The start of the first line of every converted file: the comment sign, the marker
  and the space before the version.\<close>

definition marker_comment :: string where
  "marker_comment = '';post-processed by sm2pspp ''"

text \<open>A file whose only line is the marker, ended by the newline and not by a space.\<close>

definition sample_marker_newline :: string where
  "sample_marker_newline = '';post-processed by sm2pspp'' @ eol"

definition always_continue :: tCallback where
  "always_continue msg file line = 1"

text \<open>The result of a call that succeeds and leaves the file as it is.\<close>

definition success_unchanged :: result where
  "success_unchanged = \<lparr>res = 1, trace = [OpenRead], out = Unchanged\<rparr>"

section \<open>The pass over a stretch of known bytes\<close>

text \<open>
  One iteration of the loop when the current byte is \<open>ch\<close>, and the iterations for the
  bytes \<open>seg\<close> that stand at the positions from \<open>n\<close> on.
\<close>

definition step_ch :: "bool \<Rightarrow> string \<Rightarrow> nat \<Rightarrow> char \<Rightarrow> lexer \<Rightarrow> lexer flow" where
  "step_ch feat buf it ch s =
     (case switch_state feat buf it ch s of
        Next s' \<Rightarrow> Next (count_line it ch s')
      | AlreadyProcessed \<Rightarrow> AlreadyProcessed
      | Fault \<Rightarrow> Fault)"

fun scan_seg :: "bool \<Rightarrow> string \<Rightarrow> nat \<Rightarrow> string \<Rightarrow> lexer \<Rightarrow> lexer flow" where
  "scan_seg feat buf n [] s = Next s"
| "scan_seg feat buf n (ch # cs) s =
     (case step_ch feat buf n ch s of
        Next s' \<Rightarrow> scan_seg feat buf (Suc n) cs s'
      | AlreadyProcessed \<Rightarrow> AlreadyProcessed
      | Fault \<Rightarrow> Fault)"

text \<open>The value that \<open>p_float\<close> returns for a token with the bytes \<open>t\<close>.\<close>

definition float_of_text :: "string \<Rightarrow> cfloat" where
  "float_of_text t = p_float32 t (whole t)"

section \<open>The temperatures of the two nozzles\<close>

text \<open>A value as the slicer writes it: bytes without white space and without a comma.\<close>

definition value_text :: "string \<Rightarrow> bool" where
  "value_text t = (t \<noteq> [] \<and> list_all (\<lambda>ch. \<not> isspace ch \<and> ch \<noteq> CHR '','') t)"

text \<open>A file with the one line that gives the temperatures \<open>a\<close> and \<open>b\<close>.\<close>

definition temperature_line :: "string \<Rightarrow> string \<Rightarrow> string" where
  "temperature_line a b = ''; first_layer_temperature = '' @ a @ '','' @ b @ eol"

section \<open>Properties of the micro-parsers\<close>

lemma dtms_digits: "list_all isdigit ds \<Longrightarrow> dtms_loop ds r v = r"
  by (induction ds arbitrary: v) auto

lemma dtms_append_digits: "list_all isdigit ds \<Longrightarrow> dtms_loop (t @ ds) r v = dtms_loop t r v"
  by (induction t arbitrary: r v) (auto simp: dtms_digits)

lemma p_dtms_text: "p_dtms buf tok = dtms_loop (token_text buf tok) 0 0"
  by (auto simp: p_dtms_def token_text_def split: option.splits)

lemma token_text_whole: "token_text s (whole s) = s"
  by (simp add: token_text_def whole_def)

text \<open>
  C5. The duration parser maps \<open>1h2m3s\<close> to 3723, \<open>90s\<close> to 90 and \<open>2d\<close> to 172800
  seconds. A run of digits at the end of the token, with no unit letter after it, adds
  nothing: the token \<open>t @ ds\<close> with digits \<open>ds\<close> gives what the token \<open>t\<close> gives.
\<close>

theorem p_dtms_units_and_trailing_run:
  "p_dtms ''1h2m3s'' (whole ''1h2m3s'') = 3723
   \<and> p_dtms ''90s'' (whole ''90s'') = 90
   \<and> p_dtms ''2d'' (whole ''2d'') = 172800
   \<and> (\<forall>buf tok t ds. token_text buf tok = t @ ds \<and> list_all isdigit ds
         \<longrightarrow> p_dtms buf tok = p_dtms t (whole t))"
proof -
  have "p_dtms ''1h2m3s'' (whole ''1h2m3s'') = 3723"
    by (simp add: p_dtms_text token_text_whole isdigit_def digit_val_def)
  moreover have "p_dtms ''90s'' (whole ''90s'') = 90"
    by (simp add: p_dtms_text token_text_whole isdigit_def digit_val_def)
  moreover have "p_dtms ''2d'' (whole ''2d'') = 172800"
    by (simp add: p_dtms_text token_text_whole isdigit_def digit_val_def)
  moreover have "p_dtms buf tok = p_dtms t (whole t)"
    if "token_text buf tok = t @ ds \<and> list_all isdigit ds" for buf tok t ds
    using that by (simp add: p_dtms_text token_text_whole dtms_append_digits)
  ultimately show ?thesis by blast
qed

theorem p_dtms_units_and_trailing_run_witness:
  "token_text ''1h30'' (whole ''1h30'') = ''1h'' @ ''30'' \<and> list_all isdigit ''30''
   \<and> p_dtms ''1h30'' (whole ''1h30'') = p_dtms ''1h'' (whole ''1h'')
   \<and> p_dtms ''1h'' (whole ''1h'') = 3600"
proof -
  have h: "token_text ''1h30'' (whole ''1h30'') = ''1h'' @ ''30'' \<and> list_all isdigit ''30''"
    by (simp add: token_text_whole isdigit_def)
  from p_dtms_units_and_trailing_run
  have "\<forall>buf tok t ds. token_text buf tok = t @ ds \<and> list_all isdigit ds
          \<longrightarrow> p_dtms buf tok = p_dtms t (whole t)"
    by blast
  with h have "p_dtms ''1h30'' (whole ''1h30'') = p_dtms ''1h'' (whole ''1h'')"
    by blast
  moreover have "p_dtms ''1h'' (whole ''1h'') = 3600"
    by (simp add: p_dtms_text token_text_whole isdigit_def digit_val_def)
  ultimately show ?thesis using h by blast
qed








section \<open>Properties of the conversion as a whole\<close>

text \<open>
  C10. For a file of size zero that can be opened, \<open>processFile\<close> returns 1; it calls the
  callback for nothing and does not open the file for writing, so the file stays as it is.
\<close>

theorem processFile_empty_file:
  "fopen_rb_ok env \<Longrightarrow>
   processFile feat env (Some path) (Some cb) [] = Some \<lparr>res = 1, trace = [OpenRead], out = Unchanged\<rparr>"
  by (simp add: processFile_def)

theorem processFile_empty_file_witness:
  "processFile True
     \<lparr>fopen_rb_ok = True, malloc_ok = True, fread_ok = True, fopen_wb_ok = True,
      header_ok = True, fwrite_ok = True\<rparr>
     (Some ''a.gcode'') (Some (\<lambda>msg file line. 1)) []
   = Some \<lparr>res = 1, trace = [OpenRead], out = Unchanged\<rparr>"
  using processFile_empty_file
    [of "\<lparr>fopen_rb_ok = True, malloc_ok = True, fread_ok = True, fopen_wb_ok = True,
          header_ok = True, fwrite_ok = True\<rparr>" True "''a.gcode''" "\<lambda>msg file line. 1"]
  by simp

section \<open>Running the lexer\<close>

lemmas lex_defs = lex_step_def switch_state_def st_line_start_def st_find_line_start_def
  st_gcode_def st_comment_def st_parameter_value_def st_thumbnail_def st_thumbnail_tail_def
  count_thumbnail_line_def
  count_line_def end_of_token_def dispatch_def linear_move_def fold_box_def new_pos_def
  extrudes_def IS_SET_def lower_def raise_def reset_box_def comment_key_def key_slot_def
  thumbnail_begin_def thumbnail_end_def set_slot_len_def ptr_diff_def
  p_cmpToken_def p_cmpTokenStart_def token_text_def p_uint_def p_float_def float_result_def p_float32_def float_result32_def fl_of_size_def
  isdigit_def isspace_def digit_val_def GCODE_G_def null_token_def init_def eol_def

lemma exp_hi_numeral:
  "exp_hi (numeral k) a = (if a < 2 then 0 else Suc (exp_hi (pred_numeral k) (a / 2)))"
  by (simp add: numeral_eq_Suc)

lemma exp_lo_numeral:
  "exp_lo (numeral k) a = (if 1 \<le> a then 0 else Suc (exp_lo (pred_numeral k) (a * 2)))"
  by (simp add: numeral_eq_Suc)

lemmas f32_eval = f32_def mag32_def round_to_def exponent_def quantum_def round_even_def
  exp_hi_numeral exp_lo_numeral signed_inf_def

lemmas upt_eval = upt_rec [of 0] upt_rec [of "Suc _"] upt_rec [of "numeral _"]

lemma scan_append:
  "scan feat buf (its @ jts) s =
     (case scan feat buf its s of Next s' \<Rightarrow> scan feat buf jts s'
      | AlreadyProcessed \<Rightarrow> AlreadyProcessed | Fault \<Rightarrow> Fault)"
  by (induction its arbitrary: s) (auto split: flow.splits)

lemma scan_snoc:
  "scan feat buf (its @ [i]) s =
     (case scan feat buf its s of Next s' \<Rightarrow> lex_step feat buf i s'
      | AlreadyProcessed \<Rightarrow> AlreadyProcessed | Fault \<Rightarrow> Fault)"
  by (simp add: scan_append split: flow.splits)

lemma scan_Suc:
  "scan feat buf [0..<Suc n] s =
     (case scan feat buf [0..<n] s of Next s' \<Rightarrow> lex_step feat buf n s'
      | AlreadyProcessed \<Rightarrow> AlreadyProcessed | Fault \<Rightarrow> Fault)"
  using scan_snoc [of feat buf "[0..<n]" n s] by simp

text \<open>A property that every step keeps holds after every prefix of the pass.\<close>

lemma scan_invariant:
  assumes "P s0"
    and "\<And>i s s'. P s \<Longrightarrow> lex_step feat buf i s = Next s' \<Longrightarrow> P s'"
    and "scan feat buf its s0 = Next s"
  shows "P s"
  using assms(1,3)
proof (induction its arbitrary: s0)
  case Nil
  then show ?case by simp
next
  case (Cons i its)
  then show ?case using assms(2) by (auto split: flow.splits)
qed

lemma lex_step_Next:
  "lex_step feat buf it s = Next s' \<longleftrightarrow>
     (\<exists>t. switch_state feat buf it (buf ! it) s = Next t \<and> s' = count_line it (buf ! it) t)"
  by (auto simp: lex_step_def split: flow.splits)

lemma scan_upt_Next:
  "scan feat buf [0..<Suc n] s0 = Next s' \<Longrightarrow>
     \<exists>s. scan feat buf [0..<n] s0 = Next s \<and> lex_step feat buf n s = Next s'"
  by (auto simp: scan_snoc split: flow.splits)

section \<open>The line counter\<close>

lemma lineNr_frames [simp]:
  "lineNr (st_line_start it ch s) = lineNr s"
  "lineNr (st_find_line_start ch s) = lineNr s"
  "lineNr (st_thumbnail_tail it ch s) = lineNr s"
  "lineNr (comment_key buf it s) = lineNr s"
  "lineNr (thumbnail_begin feat s) = lineNr s"
  "lineNr (thumbnail_end feat it s) = lineNr s"
  "lineNr (set_slot_len k it s) = lineNr s"
  "lineNr (count_thumbnail_line feat ch s) = lineNr s"
  "lineNr (reset_box s) = lineNr s"
  "lineNr (end_of_token buf s) = lineNr s"
  "lineNr (fold_box gx gy gz s) = lineNr s"
  by (simp_all add: st_line_start_def st_find_line_start_def st_thumbnail_tail_def
        comment_key_def thumbnail_begin_def thumbnail_end_def set_slot_len_def
        count_thumbnail_line_def reset_box_def end_of_token_def fold_box_def Let_def
        split: option.split tParam.split)

lemma lineNr_dispatch [simp]: "lineNr (dispatch s) = lineNr s"
  by (simp add: dispatch_def linear_move_def Let_def)

lemma lineNr_st_gcode [simp]: "lineNr (st_gcode buf it ch s) = lineNr s"
  by (simp add: st_gcode_def Let_def)

lemma lineNr_st_comment: "st_comment feat buf it ch s = Next t \<Longrightarrow> lineNr t = lineNr s"
  unfolding st_comment_def Let_def by (auto split: if_splits)

lemma lineNr_st_parameter_value: "st_parameter_value it ch s = Next t \<Longrightarrow> lineNr t = lineNr s"
  unfolding st_parameter_value_def by (auto split: if_splits option.splits)

lemma lineNr_st_thumbnail: "st_thumbnail feat buf it ch s = Next t \<Longrightarrow> lineNr t = lineNr s"
  unfolding st_thumbnail_def Let_def by (auto split: if_splits option.splits)

lemma lineNr_switch_state:
  "switch_state feat buf it ch s = Next t \<Longrightarrow> lineNr t = lineNr s"
  by (cases "state s")
     (auto simp: switch_state_def
           dest: lineNr_st_comment lineNr_st_parameter_value lineNr_st_thumbnail)

lemma lineNr_lex_step:
  "lex_step feat buf it s = Next s' \<Longrightarrow>
     lineNr s' = lineNr s + (if buf ! it = CHR 0x0A then 1 else 0)"
  by (auto simp: lex_step_Next count_line_def dest: lineNr_switch_state)

lemma lineNr_prefix:
  "n \<le> length buf \<Longrightarrow> scan feat buf [0..<n] init = Next s
     \<Longrightarrow> lineNr s = 1 + count_list (take n buf) (CHR 0x0A)"
proof (induction n arbitrary: s)
  case 0
  then show ?case by (auto simp: init_def)
next
  case (Suc n)
  from Suc.prems(2) obtain t where t: "scan feat buf [0..<n] init = Next t"
    and st: "lex_step feat buf n t = Next s"
    using scan_upt_Next by blast
  have "lineNr t = 1 + count_list (take n buf) (CHR 0x0A)"
    using Suc.IH [OF _ t] Suc.prems(1) by simp
  moreover have "take (Suc n) buf = take n buf @ [buf ! n]"
    using Suc.prems(1) by (simp add: take_Suc_conv_app_nth)
  ultimately show ?case using lineNr_lex_step [OF st] by simp
qed

lemma correct_minZ_frame2 [simp]:
  "lineNr (correct_minZ buf s) = lineNr s"
  "origThumbnailLines (correct_minZ buf s) = origThumbnailLines s"
  "slots (correct_minZ buf s) = slots s"
  "thumbnail (correct_minZ buf s) = thumbnail s"
  "origThumbnail (correct_minZ buf s) = origThumbnail s"
  by (simp_all add: correct_minZ_def)

lemma hasThumbnail_correct_minZ [simp]: "hasThumbnail (correct_minZ buf s) = hasThumbnail s"
  by (simp add: hasThumbnail_def)

lemma nozzleTemp1Val_correct_minZ [simp]:
  "nozzleTemp1Val buf (correct_minZ b s) = nozzleTemp1Val buf s"
  by (simp add: nozzleTemp1Val_def)

section \<open>The pass reads through no invalid pointer\<close>

lemma no_null_upd [simp]:
  "no_null n (s\<lparr>lineNr := l\<rparr>) = no_null n s"
  "no_null n (s\<lparr>lineStart := l\<rparr>) = no_null n s"
  "no_null n (s\<lparr>slots := sl\<rparr>) = no_null n s"
  "no_null n (s\<lparr>thumbnail := th\<rparr>) = no_null n s"
  "no_null n (s\<lparr>origThumbnail := ot\<rparr>) = no_null n s"
  "no_null n (s\<lparr>origThumbnailLines := l\<rparr>) = no_null n s"
  "no_null n (s\<lparr>hasLayerChange := h\<rparr>) = no_null n s"
  "no_null n (s\<lparr>prevExt := pe\<rparr>) = no_null n s"
  "no_null n (s\<lparr>isAbsPos := ab\<rparr>) = no_null n s"
  "no_null n (s\<lparr>code := c\<rparr>) = no_null n s"
  "no_null n (s\<lparr>param := pa\<rparr>) = no_null n s"
  "no_null n (s\<lparr>paramX := v\<rparr>) = no_null n s"
  "no_null n (s\<lparr>paramY := v\<rparr>) = no_null n s"
  "no_null n (s\<lparr>paramZ := v\<rparr>) = no_null n s"
  "no_null n (s\<lparr>paramE := v\<rparr>) = no_null n s"
  "no_null n (s\<lparr>curX := v\<rparr>) = no_null n s"
  "no_null n (s\<lparr>curY := v\<rparr>) = no_null n s"
  "no_null n (s\<lparr>curZ := v\<rparr>) = no_null n s"
  "no_null n (s\<lparr>minX := v\<rparr>) = no_null n s"
  "no_null n (s\<lparr>minY := v\<rparr>) = no_null n s"
  "no_null n (s\<lparr>minZ := v\<rparr>) = no_null n s"
  "no_null n (s\<lparr>maxX := v\<rparr>) = no_null n s"
  "no_null n (s\<lparr>maxY := v\<rparr>) = no_null n s"
  "no_null n (s\<lparr>maxZ := v\<rparr>) = no_null n s"
  by (simp_all add: no_null_def)

lemma no_null_mono: "no_null n s \<Longrightarrow> no_null (Suc n) s"
  by (auto simp: no_null_def split: option.splits)

lemma no_null_frames [simp]:
  "no_null n (fold_box gx gy gz s) = no_null n s"
  "no_null n (reset_box s) = no_null n s"
  "no_null n (count_thumbnail_line feat ch s) = no_null n s"
  "no_null n (set_slot_len k it s) = no_null n s"
  "no_null n (count_line it ch s) = no_null n s"
  by (simp_all add: fold_box_def reset_box_def count_thumbnail_line_def set_slot_len_def
        count_line_def Let_def)

lemma no_null_linear_move [simp]: "no_null n (linear_move s) = no_null n s"
  by (simp add: linear_move_def Let_def)

lemma no_null_dispatch [simp]: "no_null n (dispatch s) = no_null n s"
  by (simp add: dispatch_def)

lemma no_null_end_of_token:
  "state s \<noteq> ST_PARAMETER_VALUE \<Longrightarrow> no_null n s \<Longrightarrow> no_null n (end_of_token buf s)"
  by (simp add: end_of_token_def no_null_def split: tParam.splits)

lemma state_end_of_token [simp]: "state (end_of_token buf s) = state s"
  by (simp add: end_of_token_def split: tParam.splits)

lemma no_null_st_line_start:
  "state s = ST_LINE_START \<Longrightarrow> no_null it s \<Longrightarrow> no_null (Suc it) (st_line_start it ch s)"
  by (simp add: st_line_start_def no_null_def null_token_def split: option.splits)

lemma no_null_st_find_line_start:
  "state s = ST_FIND_LINE_START \<Longrightarrow> no_null it s \<Longrightarrow> no_null (Suc it) (st_find_line_start ch s)"
  by (simp add: st_find_line_start_def no_null_def split: option.splits)

lemma no_null_st_thumbnail_tail:
  "state s = ST_THUMBNAIL_TAIL \<Longrightarrow> no_null it s \<Longrightarrow> no_null (Suc it) (st_thumbnail_tail it ch s)"
  by (simp add: st_thumbnail_tail_def no_null_def split: option.splits)

lemma fold_box_frame2 [simp]:
  "state (fold_box gx gy gz s) = state s" "aToken (fold_box gx gy gz s) = aToken s"
  "valueToken (fold_box gx gy gz s) = valueToken s"
  by (simp_all add: fold_box_def Let_def)

lemma linear_move_frame [simp]:
  "state (linear_move s) = state s" "aToken (linear_move s) = aToken s"
  "valueToken (linear_move s) = valueToken s"
  by (simp_all add: linear_move_def Let_def)

lemma dispatch_frame [simp]:
  "state (dispatch s) = state s" "aToken (dispatch s) = aToken s"
  "valueToken (dispatch s) = valueToken s"
  by (simp_all add: dispatch_def)

lemma end_of_token_frame [simp]:
  "aToken (end_of_token buf s) = aToken s" "valueToken (end_of_token buf s) = valueToken s"
  by (simp_all add: end_of_token_def split: tParam.splits)

lemma st_gcode_state:
  "state s = ST_GCODE \<Longrightarrow> state (st_gcode buf it ch s) \<noteq> ST_PARAMETER_VALUE"
  by (simp add: st_gcode_def Let_def)

lemma st_gcode_aToken:
  "start (aToken (st_gcode buf it ch s)) = None
   \<or> start (aToken (st_gcode buf it ch s)) = Some (it + 1)
   \<or> start (aToken (st_gcode buf it ch s)) = start (aToken s)"
  by (simp add: st_gcode_def Let_def null_token_def)

lemma no_null_st_gcode:
  assumes "state s = ST_GCODE" and "no_null it s"
  shows "no_null (Suc it) (st_gcode buf it ch s)"
  using st_gcode_state [OF assms(1), of buf it ch] st_gcode_aToken [of buf it ch s] assms(2)
  unfolding no_null_def by (auto split: option.splits)

lemma no_null_comment_key:
  "state s = ST_COMMENT \<Longrightarrow> no_null it s \<Longrightarrow> no_null (Suc it) (comment_key buf it s)"
  by (auto simp: comment_key_def Let_def no_null_def null_token_def split: option.splits)

lemma no_null_thumbnail_begin:
  "state s = ST_COMMENT \<Longrightarrow> no_null (Suc it) (thumbnail_begin feat s)"
  by (simp add: thumbnail_begin_def Let_def no_null_def null_token_def)

lemma no_null_st_comment:
  assumes "state s = ST_COMMENT" and "no_null it s" and "st_comment feat buf it ch s = Next t"
  shows "no_null (Suc it) t"
proof -
  show ?thesis
    using assms(3) unfolding st_comment_def Let_def
    by (auto split: if_splits
          simp: no_null_comment_key [OF assms(1,2)] no_null_thumbnail_begin [OF assms(1)])
       (use assms(1,2) in \<open>auto simp: no_null_def split: option.splits\<close>)
qed

lemma no_null_st_parameter_value:
  assumes "state s = ST_PARAMETER_VALUE" and "no_null it s"
  shows "st_parameter_value it ch s \<noteq> Fault
         \<and> (\<forall>t. st_parameter_value it ch s = Next t \<longrightarrow> no_null (Suc it) t)"
proof -
  obtain k where k: "valueToken s = Some k" using assms by (auto simp: no_null_def)
  have 1: "no_null (Suc it) (s\<lparr>valueToken := None, state := ST_LINE_START\<rparr>)"
          "no_null (Suc it) ((set_slot_len k'' it s)\<lparr>valueToken := Some k'\<rparr>)"
          "no_null (Suc it) s" for k' k''
    using assms by (auto simp: no_null_def set_slot_len_def split: option.splits)
  show ?thesis
    unfolding st_parameter_value_def using k 1 by auto
qed

lemma no_null_thumbnail_end:
  "state s = ST_THUMBNAIL \<Longrightarrow> no_null (Suc it) s \<Longrightarrow> no_null (Suc it) (thumbnail_end feat it s)"
  by (simp add: thumbnail_end_def Let_def no_null_def)

lemma state_count_thumbnail_line [simp]: "state (count_thumbnail_line feat ch s) = state s"
  by (simp add: count_thumbnail_line_def)

lemma aToken_count_thumbnail_line [simp]: "aToken (count_thumbnail_line feat ch s) = aToken s"
  by (simp add: count_thumbnail_line_def)

lemma no_null_st_thumbnail:
  assumes "state s = ST_THUMBNAIL" and "no_null it s" and "it < length buf"
  shows "st_thumbnail feat buf it ch s \<noteq> Fault
         \<and> (\<forall>t. st_thumbnail feat buf it ch s = Next t \<longrightarrow> no_null (Suc it) t)"
proof -
  let ?s0 = "count_thumbnail_line feat ch s"
  have s0: "state ?s0 = ST_THUMBNAIL" "no_null it ?s0" using assms by simp_all
  have a: "a < length buf" if "start (aToken ?s0) = Some a" for a
    using that assms(2,3) by (simp add: no_null_def)
  have 1: "no_null (Suc it) ?s0"
          "no_null (Suc it) (?s0\<lparr>aToken := \<lparr>start = Some (it + 1), len = 0\<rparr>\<rparr>)"
          "no_null (Suc it) (?s0\<lparr>aToken := \<lparr>start = Some it, len = 1\<rparr>\<rparr>)"
          "no_null (Suc it) (?s0\<lparr>aToken := (aToken ?s0)\<lparr>len := l\<rparr>\<rparr>)" for l
    using s0 by (auto simp: no_null_def split: option.splits)
  have 2: "no_null (Suc it) (thumbnail_end feat it (?s0\<lparr>aToken := (aToken ?s0)\<lparr>len := l\<rparr>\<rparr>))" for l
    using no_null_thumbnail_end [of "?s0\<lparr>aToken := (aToken ?s0)\<lparr>len := l\<rparr>\<rparr>" it feat] s0 1(4) [of l]
    by simp
  show ?thesis
    unfolding st_thumbnail_def Let_def
    using 1 2 a by (auto split: option.splits)
qed

lemma no_null_switch_state:
  assumes "no_null it s" and "it < length buf"
  shows "switch_state feat buf it ch s \<noteq> Fault
         \<and> (\<forall>t. switch_state feat buf it ch s = Next t \<longrightarrow> no_null (Suc it) t)"
proof (cases "state s")
  case ST_LINE_START
  then show ?thesis using assms by (simp add: switch_state_def no_null_st_line_start)
next
  case ST_FIND_LINE_START
  then show ?thesis using assms by (simp add: switch_state_def no_null_st_find_line_start)
next
  case ST_GCODE
  then show ?thesis using assms by (simp add: switch_state_def no_null_st_gcode)
next
  case ST_COMMENT
  then show ?thesis using assms no_null_st_comment [of s it feat buf ch]
    by (auto simp: switch_state_def st_comment_def Let_def)
next
  case ST_PARAMETER_VALUE
  then show ?thesis using assms no_null_st_parameter_value [of s it ch]
    by (simp add: switch_state_def)
next
  case ST_THUMBNAIL
  then show ?thesis using assms no_null_st_thumbnail [of s it buf feat ch]
    by (simp add: switch_state_def)
next
  case ST_THUMBNAIL_TAIL
  then show ?thesis using assms by (simp add: switch_state_def no_null_st_thumbnail_tail)
qed

lemma no_null_lex_step:
  assumes "no_null it s" and "it < length buf"
  shows "lex_step feat buf it s \<noteq> Fault
         \<and> (\<forall>s'. lex_step feat buf it s = Next s' \<longrightarrow> no_null (Suc it) s')"
  using no_null_switch_state [OF assms, of feat "buf ! it"]
  by (auto simp: lex_step_def split: flow.splits)

lemma no_null_prefix:
  "n \<le> length buf \<Longrightarrow>
     scan feat buf [0..<n] init \<noteq> Fault
     \<and> (\<forall>s. scan feat buf [0..<n] init = Next s \<longrightarrow> no_null n s)"
proof (induction n)
  case 0
  show ?case by (auto simp: no_null_def init_def null_token_def)
next
  case (Suc n)
  then have ih: "scan feat buf [0..<n] init \<noteq> Fault"
    "\<And>s. scan feat buf [0..<n] init = Next s \<Longrightarrow> no_null n s" and n: "n < length buf"
    by auto
  show ?case
  proof (cases "scan feat buf [0..<n] init")
    case (Next t)
    then show ?thesis using no_null_lex_step [OF ih(2) [OF Next] n, of feat]
      by (simp add: scan_snoc)
  next
    case AlreadyProcessed
    then show ?thesis by (simp add: scan_snoc)
  next
    case Fault
    then show ?thesis using ih(1) by simp
  qed
qed

lemma parse_no_fault: "parse feat buf \<noteq> Fault"
  using no_null_prefix [of "length buf" buf feat] by (simp add: parse_def)

section \<open>Warnings and the rewriting\<close>

lemma missing_tokens_warnings: "list_all is_warning (missing_tokens s)"
  by (simp add: missing_tokens_def is_warning_def)

lemma event_preds [simp]:
  "warn_at_line n (Callback m l) = (is_warning m \<and> l = n)"
  "stop_event cb file (Callback m l) = (is_warning m \<and> cb m file l \<noteq> 1)"
  "warn_event (Callback m l) = is_warning m"
  "\<not> warn_event OpenRead" "\<not> warn_event Parsed" "\<not> warn_event OpenWrite" "\<not> warn_event WriteDone"
  "\<not> stop_event cb file OpenRead" "\<not> stop_event cb file Parsed"
  "\<not> stop_event cb file OpenWrite" "\<not> stop_event cb file WriteDone"
  "\<not> warn_at_line n OpenRead" "\<not> warn_at_line n Parsed"
  "\<not> warn_at_line n OpenWrite" "\<not> warn_at_line n WriteDone"
  by (simp_all add: warn_at_line_def stop_event_def warn_event_def)

lemma error_not_warning [simp]:
  "\<not> is_warning MSGT_ERR_NO_MEM" "\<not> is_warning MSGT_ERR_FILE_OPEN"
  "\<not> is_warning MSGT_ERR_FILE_READ" "\<not> is_warning MSGT_ERR_FILE_CREATE"
  "\<not> is_warning MSGT_ERR_FILE_WRITE"
  by (simp_all add: is_warning_def)

text \<open>What \<open>on_warns\<close> returns: calls for warnings with the given line; they are all
  answered with 1 exactly when the result says so.\<close>

lemma on_warns_events:
  "list_all is_warning msgs \<Longrightarrow> on_warns cb file n msgs = (evs, ok) \<Longrightarrow>
     list_all (warn_at_line n) evs \<and> (ok \<longleftrightarrow> \<not> list_ex (stop_event cb file) evs)"
proof (induction msgs arbitrary: evs ok)
  case Nil
  then show ?case by simp
next
  case (Cons m ms)
  show ?case
  proof (cases "cb m file n \<noteq> 1")
    case True
    then show ?thesis using Cons.prems by auto
  next
    case False
    obtain evs' ok' where r: "on_warns cb file n ms = (evs', ok')" by (cases "on_warns cb file n ms")
    have "list_all (warn_at_line n) evs' \<and> (ok' \<longleftrightarrow> \<not> list_ex (stop_event cb file) evs')"
      using Cons.IH [OF _ r] Cons.prems(1) by simp
    then show ?thesis using False r Cons.prems by auto
  qed
qed

lemma warn_at_line_not_marker:
  assumes "list_all (warn_at_line n) evs"
  shows "dropWhile (\<lambda>e. e \<noteq> OpenWrite) (evs @ rest) = dropWhile (\<lambda>e. e \<noteq> OpenWrite) rest"
    and "dropWhile (\<lambda>e. e \<noteq> OpenWrite) evs = []"
    and "OpenWrite \<notin> set evs"
proof -
  have "\<forall>e \<in> set evs. e \<noteq> OpenWrite"
    using assms by (auto simp: list_all_iff)
  then show "dropWhile (\<lambda>e. e \<noteq> OpenWrite) (evs @ rest) = dropWhile (\<lambda>e. e \<noteq> OpenWrite) rest"
    and "dropWhile (\<lambda>e. e \<noteq> OpenWrite) evs = []" and "OpenWrite \<notin> set evs"
    by (auto simp: dropWhile_append1 dropWhile_append2)
qed

lemma warn_at_line_imp:
  "list_all (warn_at_line n) evs \<Longrightarrow> list_all (\<lambda>e. \<not> warn_event e \<or> warn_at_line n e) evs"
  by (induction evs) auto

lemma rewrite_trace:
  "\<exists>rest. trace (rewrite feat env cb file buf s evs) = evs @ rest
      \<and> \<not> list_ex warn_event rest
      \<and> \<not> list_ex (stop_event cb file) rest
      \<and> \<not> list_ex warn_event (dropWhile (\<lambda>e. e \<noteq> OpenWrite) rest)"
  by (simp add: rewrite_def)


lemma list_all_warn_line:
  "list_all (warn_at_line n) evs \<Longrightarrow> \<not> list_ex warn_event rest \<Longrightarrow>
     list_all (\<lambda>e. \<not> warn_event e \<or> warn_at_line n e) ([OpenRead, Parsed] @ evs @ rest)"
  by (auto simp: list_all_iff list_ex_iff)

text \<open>
  C4. \<open>processFile\<close> returns a result. In its trace no warning is reported before the
  parse loop has ended and none after the file is opened for writing; every warning carries
  the line number that the pass ends with. If the callback answers some warning with
  something other than 1, \<open>processFile\<close> returns 0, the file is as it was, and it was
  never opened for writing.
\<close>

theorem warnings_after_parse_before_rewrite:
  "\<exists>r. processFile feat env (Some path) (Some cb) content = Some r
     \<and> \<not> list_ex warn_event (takeWhile (\<lambda>e. e \<noteq> Parsed) (trace r))
     \<and> \<not> list_ex warn_event (dropWhile (\<lambda>e. e \<noteq> OpenWrite) (trace r))
     \<and> list_all (\<lambda>e. \<not> warn_event e \<or> warn_at_line (1 + count_list content (CHR 0x0A)) e) (trace r)
     \<and> (list_ex (stop_event cb path) (trace r) \<longrightarrow>
          res r = 0 \<and> out r = Unchanged \<and> OpenWrite \<notin> set (trace r))"
proof (cases "fopen_rb_ok env \<and> \<not> length content < 1 \<and> malloc_ok env \<and> fread_ok env")
  case False
  then show ?thesis by (auto simp: processFile_def)
next
  case io: True
  show ?thesis
  proof (cases "parse feat content")
    case AlreadyProcessed
    then show ?thesis using io by (simp add: processFile_def)
  next
    case Fault
    then show ?thesis using parse_no_fault by blast
  next
    case (Next s0)
    let ?s = "correct_minZ content s0"
    let ?n = "1 + count_list content (CHR 0x0A)"
    have n: "lineNr ?s = ?n"
      using lineNr_prefix [of "length content" content feat s0] Next by (simp add: parse_def)
    obtain evs ok where w: "on_warns cb path ?n (missing_tokens ?s) = (evs, ok)"
      by (cases "on_warns cb path ?n (missing_tokens ?s)")
    have ev: "list_all (warn_at_line ?n) evs" and ok: "ok \<longleftrightarrow> \<not> list_ex (stop_event cb path) evs"
      using on_warns_events [OF missing_tokens_warnings w] by simp_all
    show ?thesis
    proof (cases ok)
      case False
      have p: "processFile feat env (Some path) (Some cb) content
                 = Some \<lparr>res = 0, trace = [OpenRead, Parsed] @ evs @ [], out = Unchanged\<rparr>"
        using io Next n w False by (simp add: processFile_def)
      show ?thesis
        unfolding p using list_all_warn_line [OF ev, of "[]"]
        by (simp add: warn_at_line_not_marker [OF ev])
    next
      case True
      let ?r = "rewrite feat env cb path content ?s (OpenRead # Parsed # evs)"
      have p: "processFile feat env (Some path) (Some cb) content = Some ?r"
        using io Next n w True by (simp add: processFile_def)
      obtain rest where t: "trace ?r = (OpenRead # Parsed # evs) @ rest"
        and r1: "\<not> list_ex warn_event rest" and r2: "\<not> list_ex (stop_event cb path) rest"
        and r3: "\<not> list_ex warn_event (dropWhile (\<lambda>e. e \<noteq> OpenWrite) rest)"
        using rewrite_trace [of feat env cb path content ?s "OpenRead # Parsed # evs"] by blast
      have t': "trace ?r = OpenRead # Parsed # evs @ rest" using t by simp
      have "\<not> list_ex (stop_event cb path) (trace ?r)"
        using True ok r2 unfolding t' by (auto simp: list_ex_iff)
      then show ?thesis
        unfolding p using list_all_warn_line [OF ev r1] r3
        by (simp add: t' warn_at_line_not_marker [OF ev])
    qed
  qed
qed

theorem warnings_after_parse_before_rewrite_witness:
  "\<exists>r. processFile True all_ok (Some ''a.gcode'') (Some stop_at_est_time) sample_one_line = Some r
      \<and> trace r = [OpenRead, Parsed, Callback MSGT_WARN_NO_FILAMENT_USED 2,
                    Callback MSGT_WARN_NO_LAYER_HEIGHT 2, Callback MSGT_WARN_NO_EST_TIME 2]
      \<and> list_ex (stop_event stop_at_est_time ''a.gcode'') (trace r)
      \<and> res r = 0 \<and> out r = Unchanged \<and> OpenWrite \<notin> set (trace r)"
proof -
  have e: "processFile True all_ok (Some ''a.gcode'') (Some stop_at_est_time) sample_one_line
      = Some \<lparr>res = 0,
              trace = [OpenRead, Parsed, Callback MSGT_WARN_NO_FILAMENT_USED 2,
                       Callback MSGT_WARN_NO_LAYER_HEIGHT 2, Callback MSGT_WARN_NO_EST_TIME 2],
              out = Unchanged\<rparr>"
    by (simp add: processFile_def all_ok_def stop_at_est_time_def sample_one_line_def parse_def
          upt_eval lex_defs correct_minZ_def missing_tokens_def missing_def)
  from warnings_after_parse_before_rewrite
    [of True all_ok "''a.gcode''" stop_at_est_time sample_one_line]
  obtain r where r: "processFile True all_ok (Some ''a.gcode'') (Some stop_at_est_time) sample_one_line = Some r"
    and imp: "list_ex (stop_event stop_at_est_time ''a.gcode'') (trace r) \<longrightarrow>
          res r = 0 \<and> out r = Unchanged \<and> OpenWrite \<notin> set (trace r)"
    by blast
  have tr: "trace r = [OpenRead, Parsed, Callback MSGT_WARN_NO_FILAMENT_USED 2,
                    Callback MSGT_WARN_NO_LAYER_HEIGHT 2, Callback MSGT_WARN_NO_EST_TIME 2]"
    using r e by auto
  have st: "list_ex (stop_event stop_at_est_time ''a.gcode'') (trace r)"
    unfolding tr by (simp add: stop_at_est_time_def is_warning_def)
  show ?thesis using r tr st imp by blast
qed

section \<open>The first occurrence of a key wins\<close>

text \<open>The three fields the invariant of the slots reads.\<close>

lemma slots_frames [simp]:
  "slots (fold_box gx gy gz s) = slots s"
  "slots (reset_box s) = slots s"
  "slots (count_thumbnail_line feat ch s) = slots s"
  "slots (count_line it ch s) = slots s"
  "slots (end_of_token buf s) = slots s"
  "slots (thumbnail_begin feat s) = slots s"
  "slots (thumbnail_end feat it s) = slots s"
  "slots (comment_key buf it s) = slots s"
  "slots (st_line_start it ch s) = slots s"
  "slots (st_find_line_start ch s) = slots s"
  "slots (st_thumbnail_tail it ch s) = slots s"
  by (simp_all add: fold_box_def reset_box_def count_thumbnail_line_def count_line_def
        end_of_token_def thumbnail_begin_def thumbnail_end_def comment_key_def
        st_line_start_def st_find_line_start_def st_thumbnail_tail_def Let_def
        split: tParam.splits option.splits)

lemma slots_linear_move [simp]: "slots (linear_move s) = slots s"
  by (simp add: linear_move_def Let_def)

lemma slots_dispatch [simp]: "slots (dispatch s) = slots s"
  by (simp add: dispatch_def)

lemma slots_st_gcode [simp]: "slots (st_gcode buf it ch s) = slots s"
  by (simp add: st_gcode_def Let_def)

lemma valueToken_frames [simp]:
  "valueToken (reset_box s) = valueToken s"
  "valueToken (count_thumbnail_line feat ch s) = valueToken s"
  "valueToken (count_line it ch s) = valueToken s"
  "valueToken (thumbnail_begin feat s) = valueToken s"
  "valueToken (thumbnail_end feat it s) = valueToken s"
  "valueToken (set_slot_len k it s) = valueToken s"
  "valueToken (st_line_start it ch s) = valueToken s"
  "valueToken (st_find_line_start ch s) = valueToken s"
  "valueToken (st_thumbnail_tail it ch s) = valueToken s"
  by (simp_all add: reset_box_def count_thumbnail_line_def count_line_def
        thumbnail_begin_def thumbnail_end_def set_slot_len_def
        st_line_start_def st_find_line_start_def st_thumbnail_tail_def Let_def)

lemma valueToken_st_gcode [simp]: "valueToken (st_gcode buf it ch s) = valueToken s"
  by (simp add: st_gcode_def Let_def)

lemma state_frames [simp]:
  "state (reset_box s) = state s"
  "state (count_line it ch s) = state s"
  "state (set_slot_len k it s) = state s"
  by (simp_all add: reset_box_def count_line_def set_slot_len_def)

lemma slots_set_slot_len:
  "slots (set_slot_len k it s) k' =
     (if k' = k then (slots s k)\<lparr>len := ptr_diff it (slots s k) + 1\<rparr> else slots s k')"
  by (simp add: set_slot_len_def)

text \<open>The states that are not the state for a value are left for it only by \<open>comment_key\<close>.\<close>

lemma not_value_state:
  "state (st_line_start it ch s) \<noteq> ST_PARAMETER_VALUE \<or> state s = ST_PARAMETER_VALUE"
  "state (st_find_line_start ch s) \<noteq> ST_PARAMETER_VALUE \<or> state s = ST_PARAMETER_VALUE"
  "state (st_thumbnail_tail it ch s) \<noteq> ST_PARAMETER_VALUE \<or> state s = ST_PARAMETER_VALUE"
  "state (thumbnail_begin feat s) \<noteq> ST_PARAMETER_VALUE"
  "state (thumbnail_end feat it s) \<noteq> ST_PARAMETER_VALUE"
  by (simp_all add: st_line_start_def st_find_line_start_def st_thumbnail_tail_def
        thumbnail_begin_def thumbnail_end_def Let_def)

lemma slot_inv_cong:
  "slots t = slots s \<Longrightarrow> valueToken t = valueToken s \<Longrightarrow>
     (state t = ST_PARAMETER_VALUE \<or> valueToken s = None) \<Longrightarrow> slot_inv s \<Longrightarrow> slot_inv t"
  by (auto simp: slot_inv_def)

lemma slot_inv_count_line [simp]: "slot_inv (count_line it ch s) = slot_inv s"
  by (simp add: slot_inv_def)

lemma key_slot_not_second: "key_slot buf t \<noteq> Some NozzleTemp1"
  by (simp add: key_slot_def)

lemma slot_inv_comment_key:
  assumes "slot_inv s" and "state s = ST_COMMENT"
  shows "slot_inv (comment_key buf it s)"
proof -
  have v: "valueToken s = None" using assms by (auto simp: slot_inv_def)
  show ?thesis
    using assms(1) v key_slot_not_second [of buf]
    by (auto simp: comment_key_def Let_def slot_inv_def split: option.splits)
qed

lemma slot_inv_st_comment:
  assumes "slot_inv s" and "state s = ST_COMMENT" and "st_comment feat buf it ch s = Next t"
  shows "slot_inv t"
proof -
  have v: "valueToken s = None" using assms by (auto simp: slot_inv_def)
  have 1: "slot_inv u" if "slots u = slots s" "valueToken u = valueToken s" for u
    using slot_inv_cong [OF that _ assms(1)] v by simp
  show ?thesis
    using assms(3) unfolding st_comment_def Let_def
    by (auto split: if_splits simp: slot_inv_comment_key [OF assms(1,2)] 1)
qed

lemma slot_inv_st_parameter_value:
  assumes "slot_inv s" and "state s = ST_PARAMETER_VALUE" and "st_parameter_value it ch s = Next t"
  shows "slot_inv t"
  using assms unfolding st_parameter_value_def
  by (auto split: if_splits option.splits simp: slot_inv_def slots_set_slot_len)

lemma slot_inv_st_thumbnail:
  assumes "slot_inv s" and "state s = ST_THUMBNAIL" and "st_thumbnail feat buf it ch s = Next t"
  shows "slot_inv t"
proof -
  have v: "valueToken s = None" using assms by (auto simp: slot_inv_def)
  have 1: "slot_inv u" if "slots u = slots s" "valueToken u = valueToken s" for u
    using slot_inv_cong [OF that _ assms(1)] v by simp
  show ?thesis
    using assms(3) unfolding st_thumbnail_def Let_def
    by (auto split: if_splits option.splits simp: 1)
qed

lemma slot_inv_switch_state:
  assumes "slot_inv s" and "switch_state feat buf it ch s = Next t"
  shows "slot_inv t"
proof -
  have v: "state s = ST_PARAMETER_VALUE \<or> valueToken s = None"
    using assms(1) by (simp add: slot_inv_def)
  have 1: "slot_inv u" if "slots u = slots s" "valueToken u = valueToken s"
    "state s \<noteq> ST_PARAMETER_VALUE" for u
    using slot_inv_cong [OF that(1,2) _ assms(1)] v that(3) by simp
  show ?thesis
  proof (cases "state s")
    case ST_COMMENT
    then show ?thesis using assms slot_inv_st_comment by (auto simp: switch_state_def)
  next
    case ST_PARAMETER_VALUE
    then show ?thesis using assms slot_inv_st_parameter_value by (auto simp: switch_state_def)
  next
    case ST_THUMBNAIL
    then show ?thesis using assms slot_inv_st_thumbnail by (auto simp: switch_state_def)
  qed (use assms(2) in \<open>auto simp: switch_state_def 1\<close>)
qed

lemma slot_inv_lex_step:
  "slot_inv s \<Longrightarrow> lex_step feat buf it s = Next s' \<Longrightarrow> slot_inv s'"
  by (auto simp: lex_step_Next dest: slot_inv_switch_state)

lemma slot_inv_init: "slot_inv init"
  by (simp add: slot_inv_def init_def null_token_def)

lemma slot_inv_scan: "scan feat buf its init = Next s \<Longrightarrow> slot_inv s"
  using scan_invariant [of slot_inv init feat buf its s] slot_inv_init slot_inv_lex_step
  by blast


lemma kept_same:
  "slots t = slots s \<Longrightarrow> valueToken t = valueToken s \<Longrightarrow> kept k s t"
  by (simp add: kept_def)

lemma valueToken_comment_key:
  "valueToken (comment_key buf it s) = None
   \<or> (\<exists>k'. valueToken (comment_key buf it s) = Some k' \<and> start (slots s k') = None)"
  by (auto simp: comment_key_def Let_def split: option.splits)

lemma kept_comment_key:
  "start (slots s k) \<noteq> None \<Longrightarrow> kept k s (comment_key buf it s)"
  using valueToken_comment_key [of buf it s] by (auto simp: kept_def)

lemma kept_st_comment:
  assumes "start (slots s k) \<noteq> None" and "st_comment feat buf it ch s = Next t"
  shows "kept k s t"
  using assms(2) unfolding st_comment_def Let_def
  by (auto split: if_splits simp: kept_comment_key [OF assms(1)] kept_same)

lemma kept_st_parameter_value:
  assumes "slot_inv s" and "start (slots s k) \<noteq> None" and "st_parameter_value it ch s = Next t"
  shows "kept k s t"
  using assms unfolding st_parameter_value_def
  by (auto split: if_splits option.splits simp: kept_def slot_inv_def slots_set_slot_len)

lemma kept_st_thumbnail:
  assumes "st_thumbnail feat buf it ch s = Next t"
  shows "kept k s t"
  using assms unfolding st_thumbnail_def Let_def
  by (auto split: if_splits option.splits simp: kept_same)

lemma kept_switch_state:
  assumes "slot_inv s" and "start (slots s k) \<noteq> None" and "switch_state feat buf it ch s = Next t"
  shows "kept k s t"
proof (cases "state s")
  case ST_COMMENT
  then show ?thesis using assms kept_st_comment by (auto simp: switch_state_def)
next
  case ST_PARAMETER_VALUE
  then show ?thesis using assms kept_st_parameter_value by (auto simp: switch_state_def)
next
  case ST_THUMBNAIL
  then show ?thesis using assms kept_st_thumbnail by (auto simp: switch_state_def)
qed (use assms(3) in \<open>auto simp: switch_state_def kept_same\<close>)

lemma kept_lex_step:
  assumes "slot_inv s" and "start (slots s k) \<noteq> None" and "lex_step feat buf it s = Next s'"
  shows "kept k s s'"
proof -
  obtain t where t: "switch_state feat buf it (buf ! it) s = Next t"
    and s': "s' = count_line it (buf ! it) t"
    using assms(3) by (auto simp: lex_step_Next)
  show ?thesis using kept_switch_state [OF assms(1,2) t] s' by (simp add: kept_def)
qed

lemma kept_trans: "kept k s t \<Longrightarrow> kept k t u \<Longrightarrow> kept k s u"
  by (auto simp: kept_def)

lemma kept_scan:
  "slot_inv s \<Longrightarrow> start (slots s k) \<noteq> None \<Longrightarrow> scan feat buf its s = Next s' \<Longrightarrow> kept k s s'"
proof (induction its arbitrary: s)
  case Nil
  then show ?case by (simp add: kept_def)
next
  case (Cons i its)
  from Cons.prems(3) obtain t where t: "lex_step feat buf i s = Next t"
    and r: "scan feat buf its t = Next s'"
    by (auto split: flow.splits)
  have k1: "kept k s t" using kept_lex_step [OF Cons.prems(1,2) t] .
  have "slot_inv t" using slot_inv_lex_step [OF Cons.prems(1) t] .
  moreover have "start (slots t k) \<noteq> None" using k1 Cons.prems(2) by (simp add: kept_def)
  ultimately have "kept k t s'" using Cons.IH r by blast
  then show ?case using k1 kept_trans by blast
qed

text \<open>
  C8. Only the first value of a key is captured. Once the start of a slot is set, it is the
  same after every later byte of the pass; once the capture of the slot has ended (the slot
  is not the one \<open>valueToken\<close> points to), the whole token is the same after every later
  byte, and the slot is never taken up again, so later lines with the same key are
  discarded.
\<close>

theorem first_occurrence_wins:
  assumes "n \<le> m"
    and "scan feat buf [0..<n] init = Next s1"
    and "scan feat buf [0..<m] init = Next s2"
    and "start (slots s1 k) \<noteq> None"
  shows "start (slots s2 k) = start (slots s1 k)
         \<and> (valueToken s1 \<noteq> Some k \<longrightarrow> slots s2 k = slots s1 k \<and> valueToken s2 \<noteq> Some k)"
proof -
  have "[0..<m] = [0..<n] @ [n..<m]" using assms(1) by (metis le_Suc_ex upt_add_eq_append zero_le)
  then have "scan feat buf [n..<m] s1 = Next s2"
    using assms(2,3) by (simp add: scan_append)
  then have "kept k s1 s2"
    using kept_scan [OF slot_inv_scan [OF assms(2)] assms(4)] by blast
  then show ?thesis by (auto simp: kept_def)
qed

theorem first_occurrence_wins_witness:
  "(case scan True sample_two_heights [0..<21] init of
      Next s1 \<Rightarrow>
        (case scan True sample_two_heights [0..<42] init of
           Next s2 \<Rightarrow>
             token_text sample_two_heights (slots s1 LayerHeight) = ''0.2''
             \<and> valueToken s1 \<noteq> Some LayerHeight
             \<and> slots s2 LayerHeight = slots s1 LayerHeight
             \<and> token_text sample_two_heights (slots s2 LayerHeight) = ''0.2''
         | _ \<Rightarrow> False)
    | _ \<Rightarrow> False)"
proof -
  have "case scan True sample_two_heights [0..<21] init of
      Next s1 \<Rightarrow> start (slots s1 LayerHeight) \<noteq> None \<and> valueToken s1 \<noteq> Some LayerHeight
         \<and> token_text sample_two_heights (slots s1 LayerHeight) = ''0.2''
    | _ \<Rightarrow> False"
    by (simp add: sample_two_heights_def upt_eval lex_defs)
  then obtain s1 where p1: "scan True sample_two_heights [0..<21] init = Next s1"
    and a: "start (slots s1 LayerHeight) \<noteq> None" and b: "valueToken s1 \<noteq> Some LayerHeight"
    and c: "token_text sample_two_heights (slots s1 LayerHeight) = ''0.2''"
    by (auto split: flow.splits)
  have "case scan True sample_two_heights [0..<42] init of Next s2 \<Rightarrow> True | _ \<Rightarrow> False"
    by (simp add: sample_two_heights_def upt_eval lex_defs)
  then obtain s2 where p2: "scan True sample_two_heights [0..<42] init = Next s2"
    by (auto split: flow.splits)
  have "slots s2 LayerHeight = slots s1 LayerHeight"
    using first_occurrence_wins [OF _ p1 p2 a] b by simp
  then show ?thesis using p1 p2 b c by simp
qed

section \<open>The pass over a stretch of known bytes\<close>

lemma lex_step_step_ch: "lex_step feat buf it s = step_ch feat buf it (buf ! it) s"
  by (simp add: lex_step_def step_ch_def)

lemma scan_seg_eq:
  "buf = pre @ seg @ post \<Longrightarrow>
     scan feat buf [length pre..<length pre + length seg] s = scan_seg feat buf (length pre) seg s"
proof (induction seg arbitrary: pre s)
  case Nil
  then show ?case by simp
next
  case (Cons ch cs)
  have b: "buf = (pre @ [ch]) @ cs @ post" using Cons.prems by simp
  have n: "buf ! length pre = ch" using Cons.prems by simp
  have m: "length (pre @ [ch]) = Suc (length pre)" by simp
  have u: "[length pre..<length pre + length (ch # cs)]
             = length pre # [Suc (length pre)..<Suc (length pre) + length cs]"
    by (simp add: upt_rec)
  show ?case
    by (cases "step_ch feat buf (length pre) ch s")
       (simp_all only: u scan.simps scan_seg.simps lex_step_step_ch n flow.case
          Cons.IH [OF b, unfolded m])
qed

lemma parse_scan_seg: "parse feat buf = scan_seg feat buf 0 buf init"
  using scan_seg_eq [of buf "[]" buf "[]" feat init] by (simp add: parse_def)

lemma scan_seg_append:
  "scan_seg feat buf n (a @ b) s =
     (case scan_seg feat buf n a s of
        Next s' \<Rightarrow> scan_seg feat buf (n + length a) b s'
      | AlreadyProcessed \<Rightarrow> AlreadyProcessed
      | Fault \<Rightarrow> Fault)"
  by (induction a arbitrary: n s) (auto split: flow.splits)

lemma token_text_mid:
  "token_text (p @ t @ r) \<lparr>start = Some (length p), len = length t\<rparr> = t"
  by (simp add: token_text_def)

lemma token_text_at:
  "buf = p @ t @ r \<Longrightarrow> a = length p \<Longrightarrow> k = length t
     \<Longrightarrow> token_text buf \<lparr>start = Some a, len = k\<rparr> = t"
  by (simp add: token_text_def)

lemma p_float32_text:
  "start tok \<noteq> None \<Longrightarrow> p_float32 buf tok = float_of_text (token_text buf tok)"
  by (cases "token_text buf tok")
     (auto simp: p_float32_def float_of_text_def whole_def token_text_def)

section \<open>The header line of the second nozzle\<close>

lemma key_prefix:
  "buf = ''; first_layer_temperature = '' @ rest \<Longrightarrow>
     scan_seg feat buf 0 ''; first_layer_temperature = '' init
       = Next (init\<lparr>valueToken := Some NozzleTemp0, state := ST_PARAMETER_VALUE\<rparr>)"
  by (simp add: step_ch_def lex_defs)

lemma value_run:
  "state s = ST_PARAMETER_VALUE \<Longrightarrow> valueToken s = Some k \<Longrightarrow> start (slots s k) = Some a
     \<Longrightarrow> a \<le> n \<Longrightarrow> list_all (\<lambda>ch. \<not> isspace ch \<and> (ch = CHR '','' \<longrightarrow> k \<noteq> NozzleTemp0)) cs
     \<Longrightarrow> scan_seg feat buf n cs s
           = Next (if cs = [] then s
                   else s\<lparr>slots := (slots s)(k := \<lparr>start = Some a, len = n + length cs - a\<rparr>)\<rparr>)"
proof (induction cs arbitrary: n s)
  case Nil
  then show ?case by simp
next
  case (Cons ch cs)
  let ?s1 = "s\<lparr>slots := (slots s)(k := \<lparr>start = Some a, len = Suc n - a\<rparr>)\<rparr>"
  have ch: "\<not> isspace ch" "ch = CHR '','' \<longrightarrow> k \<noteq> NozzleTemp0" using Cons.prems(5) by auto
  have nl: "ch \<noteq> CHR 0x0A" "ch \<noteq> CHR 0x0D" using ch(1) by (auto simp: isspace_def)
  have nc: "\<not> (ch = CHR '','' \<and> k = NozzleTemp0)" using ch(2) by blast
  have sw: "switch_state feat buf n ch s = Next (set_slot_len k n s)"
    using Cons.prems(1-3) ch nl
    by (cases "ch = CHR '',''") (simp_all add: switch_state_def st_parameter_value_def)
  have tk: "(slots s k)\<lparr>len := Suc (n - a)\<rparr> = \<lparr>start = Some a, len = Suc n - a\<rparr>"
    using Cons.prems(3,4) by (cases "slots s k") (simp add: Suc_diff_le)
  have eq: "set_slot_len k n s = ?s1"
    using Cons.prems(3) by (simp add: set_slot_len_def ptr_diff_def tk)
  have st: "step_ch feat buf n ch s = Next ?s1"
    using nl by (simp add: step_ch_def sw eq count_line_def)
  have ih: "scan_seg feat buf (Suc n) cs ?s1
              = Next (if cs = [] then ?s1
                      else ?s1\<lparr>slots := (slots ?s1)(k := \<lparr>start = Some a, len = Suc n + length cs - a\<rparr>)\<rparr>)"
    using Cons.prems by (intro Cons.IH) auto
  show ?case by (simp add: st ih)
qed

lemma value_first:
  assumes "state s = ST_PARAMETER_VALUE" and "valueToken s = Some k"
    and "start (slots s k) = None" and "cs \<noteq> []"
    and "list_all (\<lambda>ch. \<not> isspace ch \<and> (ch = CHR '','' \<longrightarrow> k \<noteq> NozzleTemp0)) cs"
  shows "scan_seg feat buf n cs s
           = Next (s\<lparr>slots := (slots s)(k := \<lparr>start = Some n, len = length cs\<rparr>)\<rparr>)"
proof -
  obtain ch rest where cs: "cs = ch # rest" using assms(4) by (cases cs) auto
  let ?s1 = "s\<lparr>slots := (slots s)(k := \<lparr>start = Some n, len = 1\<rparr>)\<rparr>"
  have ch: "\<not> isspace ch" using assms(5) cs by simp
  have nl: "ch \<noteq> CHR 0x0A" "ch \<noteq> CHR 0x0D" using ch by (auto simp: isspace_def)
  have st: "step_ch feat buf n ch s = Next ?s1"
    using assms(1-3) ch nl
    by (simp add: step_ch_def switch_state_def st_parameter_value_def count_line_def)
  have "scan_seg feat buf (Suc n) rest ?s1
          = Next (if rest = [] then ?s1
                  else ?s1\<lparr>slots := (slots ?s1)(k := \<lparr>start = Some n, len = Suc n + length rest - n\<rparr>)\<rparr>)"
    using assms(1,2,5) cs by (intro value_run) auto
  then show ?thesis using st cs by simp
qed

lemma float_loop32_stop:
  "\<not> isdigit ch \<Longrightarrow> ch \<noteq> CHR ''.'' \<Longrightarrow>
     float_loop32 (cs @ ch # r) v f d b = float_loop32 cs v f d b"
  by (induction cs v f d b rule: float_loop32.induct) auto

lemma float_of_text_comma: "a \<noteq> [] \<Longrightarrow> float_of_text (a @ '','') = float_of_text a"
proof -
  assume "a \<noteq> []"
  then obtain ch cs where a: "a = ch # cs" by (cases a) auto
  have c: "\<not> isdigit (CHR '','')" "CHR '','' \<noteq> CHR ''.''" by (simp_all add: isdigit_def)
  show ?thesis
    using float_loop32_stop [OF c, of cs "[]"] float_loop32_stop [OF c, of "ch # cs" "[]"]
    by (simp add: float_of_text_def p_float32_def whole_def token_text_def a)
qed

lemma on_warns_always_continue:
  "on_warns always_continue file n msgs = (map (\<lambda>m. Callback m n) msgs, True)"
  by (induction msgs) (simp_all add: always_continue_def)

text \<open>The pass over the one line with the two temperatures.\<close>

lemma parse_temperature_line:
  assumes "value_text a" and "value_text b"
  shows "parse feat (temperature_line a b)
           = Next (init\<lparr>slots := (\<lambda>k. null_token)
                          (NozzleTemp0 := \<lparr>start = Some 28, len = Suc (length a)\<rparr>,
                           NozzleTemp1 := \<lparr>start = Some (29 + length a), len = length b\<rparr>),
                        lineNr := 2, lineStart := 30 + length a + length b\<rparr>)"
proof -
  let ?p = "''; first_layer_temperature = ''"
  let ?buf = "temperature_line a b"
  let ?s1 = "init\<lparr>valueToken := Some NozzleTemp0, state := ST_PARAMETER_VALUE\<rparr>"
  let ?s2 = "?s1\<lparr>slots := (slots ?s1)(NozzleTemp0 := \<lparr>start = Some 28, len = length a\<rparr>)\<rparr>"
  let ?s3 = "?s2\<lparr>slots := (slots ?s2)(NozzleTemp0 := \<lparr>start = Some 28, len = Suc (length a)\<rparr>),
                valueToken := Some NozzleTemp1\<rparr>"
  let ?s4 = "?s3\<lparr>slots := (slots ?s3)(NozzleTemp1 := \<lparr>start = Some (29 + length a), len = length b\<rparr>)\<rparr>"
  have va: "a \<noteq> []" "list_all (\<lambda>ch. \<not> isspace ch \<and> (ch = CHR '','' \<longrightarrow> NozzleTemp0 \<noteq> NozzleTemp0)) a"
    using assms(1) by (auto simp: value_text_def list_all_iff)
  have vb: "b \<noteq> []" "list_all (\<lambda>ch. \<not> isspace ch \<and> (ch = CHR '','' \<longrightarrow> NozzleTemp1 \<noteq> NozzleTemp0)) b"
    using assms(2) by (auto simp: value_text_def list_all_iff)
  have buf: "?buf = ?p @ a @ '','' @ b @ eol" by (simp add: temperature_line_def)
  have 1: "scan_seg feat ?buf 0 ?p init = Next ?s1"
    by (rule key_prefix [of _ "a @ '','' @ b @ eol"]) (simp add: temperature_line_def)
  have 2: "scan_seg feat ?buf 28 a ?s1 = Next ?s2"
    using va by (intro value_first) (simp_all add: init_def null_token_def)
  have 3: "scan_seg feat ?buf (28 + length a) '','' ?s2 = Next ?s3"
    by (simp add: step_ch_def switch_state_def st_parameter_value_def set_slot_len_def
          ptr_diff_def count_line_def init_def)
  have 4: "scan_seg feat ?buf (28 + length a + 1) b ?s3 = Next ?s4"
    using vb by (simp add: value_first init_def null_token_def)
  have 5: "scan_seg feat ?buf (28 + length a + 1 + length b) eol ?s4
             = Next (?s4\<lparr>valueToken := None, state := ST_LINE_START, lineNr := 2,
                       lineStart := 30 + length a + length b\<rparr>)"
    by (simp add: eol_def step_ch_def switch_state_def st_parameter_value_def count_line_def init_def)
  have lp: "0 + length ?p = 28" "length '','' = 1" by simp_all
  have "parse feat ?buf = scan_seg feat ?buf 0 ?buf init" by (rule parse_scan_seg)
  also have "\<dots> = scan_seg feat ?buf 0 (?p @ a @ '','' @ b @ eol) init"
    by (rule arg_cong [where f = "\<lambda>x. scan_seg feat ?buf 0 x init"]) (rule buf)
  also have "\<dots> = Next (?s4\<lparr>valueToken := None, state := ST_LINE_START, lineNr := 2,
                       lineStart := 30 + length a + length b\<rparr>)"
    by (simp only: scan_seg_append lp 1 2 3 4 5 flow.case)
  finally show ?thesis by (simp add: init_def fun_upd_twist)
qed

lemma float_of_text_210: "float_of_text ''210'' = Fin 210"
  by (simp add: float_of_text_def whole_def lex_defs f32_eval)

lemma float_of_text_200: "float_of_text ''200'' = Fin 200"
  by (simp add: float_of_text_def whole_def lex_defs f32_eval)

lemma tenth_float: "f32 (1 / 10) = Fin (13421773 / 134217728)"
  by (simp add: f32_eval)

lemma float_of_text_boundary:
  "float_of_text ''0.2'' = Fin (13421773 / 67108864)"
  "float_of_text ''0.1'' = Fin (13421773 / 134217728)"
  "float_of_text ''0.100000001'' = Fin (13421773 / 134217728)"
  by (simp_all add: float_of_text_def whole_def lex_defs f32_eval)

text \<open>
  Claim C7. For every file whose one line is the comment
  \<open>; first_layer_temperature = a,b\<close>, with \<open>a\<close> and \<open>b\<close> two values without white space
  and comma, \<open>processFile\<close> rewrites the file; the header gets, as the temperature of the
  first nozzle, the number that \<open>p_float\<close> reads from \<open>a\<close>, and the line of the second
  nozzle is printed, with the number read from \<open>b\<close>, if and only if that number is
  greater than \<open>0.1f\<close>. For \<open>210,200\<close> the numbers are 210 and 200. The comparison is
  made in single precision: \<open>0.2\<close> is greater than \<open>0.1f\<close>, while \<open>0.1\<close> and
  \<open>0.100000001\<close> are read as \<open>0.1f\<close> itself and are not.
\<close>

theorem dual_nozzle_temperature:
  assumes "value_text a" and "value_text b"
  shows "(\<exists>r h. processFile feat all_ok (Some file) (Some always_continue) (temperature_line a b)
                   = Some r
            \<and> out r = Written h (temperature_line a b)
            \<and> nozzle_temperature h = float_of_text a
            \<and> nozzle_1_temperature h
                = (if fl_less (f32 (1 / 10)) (float_of_text b) then Some (float_of_text b) else None))
         \<and> float_of_text ''210'' = Fin 210 \<and> float_of_text ''200'' = Fin 200
         \<and> fl_less (f32 (1 / 10)) (float_of_text ''0.2'')
         \<and> \<not> fl_less (f32 (1 / 10)) (float_of_text ''0.1'')
         \<and> \<not> fl_less (f32 (1 / 10)) (float_of_text ''0.100000001'')"
proof -
  let ?buf = "temperature_line a b"
  let ?p = "''; first_layer_temperature = ''"
  let ?t0 = "\<lparr>start = Some 28, len = Suc (length a)\<rparr>"
  let ?t1 = "\<lparr>start = Some (29 + length a), len = length b\<rparr>"
  let ?s = "init\<lparr>slots := (\<lambda>k. null_token)(NozzleTemp0 := ?t0, NozzleTemp1 := ?t1),
                lineNr := 2, lineStart := 30 + length a + length b\<rparr>"
  have ne: "a \<noteq> []" "b \<noteq> []" using assms by (simp_all add: value_text_def)
  have p: "parse feat ?buf = Next ?s" using assms by (rule parse_temperature_line)
  have c: "correct_minZ ?buf ?s = ?s" by (simp add: correct_minZ_def init_def null_token_def)
  have b: "body_blocks feat ?buf ?s = [?buf]"
    by (simp add: body_blocks_def init_def null_token_def)
  have n: "?buf \<noteq> []" by (simp add: temperature_line_def)
  have r: "processFile feat all_ok (Some file) (Some always_continue) ?buf
            = Some \<lparr>res = 1,
                 trace = [OpenRead, Parsed] @ map (\<lambda>m. Callback m 2) (missing_tokens ?s)
                           @ [OpenWrite, WriteDone],
                 out = Written (make_header feat ?buf ?s) ?buf\<rparr>"
    using n by (simp add: processFile_def all_ok_def p c on_warns_always_continue rewrite_def b Let_def)
  have t0: "token_text ?buf ?t0 = a @ '',''"
    by (rule token_text_at [of _ ?p _ "b @ eol"]) (simp_all add: temperature_line_def)
  have t1: "token_text ?buf ?t1 = b"
    by (rule token_text_at [of _ "?p @ a @ '',''" _ eol]) (simp_all add: temperature_line_def)
  have v0: "p_float32 ?buf ?t0 = float_of_text a"
    using ne by (simp add: p_float32_text t0 float_of_text_comma)
  have v1: "nozzleTemp1Val ?buf ?s = float_of_text b"
    using ne by (simp add: nozzleTemp1Val_def p_float32_text t1)
  have h0: "nozzle_temperature (make_header feat ?buf ?s) = float_of_text a"
    using v0 by (simp add: make_header_def)
  have h1: "nozzle_1_temperature (make_header feat ?buf ?s)
              = (if fl_less (f32 (1 / 10)) (float_of_text b) then Some (float_of_text b) else None)"
    by (simp only: make_header_def header.simps v1)
  have ex: "fl_less (f32 (1 / 10)) (float_of_text ''0.2'')"
    "\<not> fl_less (f32 (1 / 10)) (float_of_text ''0.1'')"
    "\<not> fl_less (f32 (1 / 10)) (float_of_text ''0.100000001'')"
    by (simp_all add: tenth_float float_of_text_boundary)
  show ?thesis using r h0 h1 ex float_of_text_210 float_of_text_200 by simp
qed

theorem dual_nozzle_temperature_witness:
  "value_text ''210'' \<and> value_text ''200''
   \<and> (\<exists>r h. processFile True all_ok (Some ''a.gcode'') (Some always_continue)
                (temperature_line ''210'' ''200'') = Some r
          \<and> out r = Written h (temperature_line ''210'' ''200'')
          \<and> nozzle_temperature h = Fin 210
          \<and> nozzle_1_temperature h = Some (Fin 200))"
proof -
  have v: "value_text ''210''" "value_text ''200''" by (simp_all add: value_text_def isspace_def)
  have "fl_less (f32 (1 / 10)) (Fin 200)" by (simp add: tenth_float)
  then show ?thesis
    using dual_nozzle_temperature [OF v, of True "''a.gcode''"] v
    by (simp add: float_of_text_210 float_of_text_200)
qed

end
